theory Spec2Isabelle
  imports Complex_Main "HOL-Library.Sublist" "HOL-Library.AList"
begin

section \<open>JavaScript values used by the services\<close>

text \<open>
  A JavaScript \<open>number\<close> field holds a finite double, which is a real number; every
  statement below holds for each real value of a field, so for each double, unless it
  asks for a double itself (\<open>toDouble c = Finite c\<close>). A comparison
  of two doubles is the comparison of the reals. An optional field (one that may be
  \<open>undefined\<close>) is an \<open>option\<close>.
\<close>

type_synonym number = real

text \<open>\<open>x || d\<close> on a number: 0 is falsy.\<close>

definition or_number :: "number \<Rightarrow> number \<Rightarrow> number" where
  "or_number x d = (if x = 0 then d else x)"

text \<open>\<open>field || d\<close> on an optional number: \<open>undefined\<close> and 0 are falsy.\<close>

definition or_optional :: "number option \<Rightarrow> number \<Rightarrow> number" where
  "or_optional x d = (case x of None \<Rightarrow> d | Some v \<Rightarrow> or_number v d)"

text \<open>\<open>field > c\<close> and \<open>field < c\<close> on an optional number: a comparison with
  \<open>undefined\<close> is false.\<close>

definition gt_optional :: "number option \<Rightarrow> number \<Rightarrow> bool" where
  "gt_optional x c = (case x of None \<Rightarrow> False | Some v \<Rightarrow> v > c)"

definition lt_optional :: "number option \<Rightarrow> number \<Rightarrow> bool" where
  "lt_optional x c = (case x of None \<Rightarrow> False | Some v \<Rightarrow> v < c)"

text \<open>The result of an arithmetic operation, which in JavaScript never throws: it is a
  finite double, an infinity or \<open>NaN\<close>. The sign of a zero is left out: no zero divisor
  in the functions below is ever negative.\<close>

datatype js_number = Finite number | PosInfinity | NegInfinity | NaN

text \<open>The average of a trend function, \<open>sum / length\<close>, with the zero divisor of the
  empty batch.\<close>

definition js_divide :: "number \<Rightarrow> number \<Rightarrow> js_number" where
  "js_divide a b =
     (if b \<noteq> 0 then Finite (a / b)
      else if a > 0 then PosInfinity
      else if a < 0 then NegInfinity
      else NaN)"

definition quotient_gt :: "js_number \<Rightarrow> number \<Rightarrow> bool" where
  "quotient_gt q c =
     (case q of Finite x \<Rightarrow> x > c | PosInfinity \<Rightarrow> True | NegInfinity \<Rightarrow> False | NaN \<Rightarrow> False)"

definition quotient_lt :: "js_number \<Rightarrow> number \<Rightarrow> bool" where
  "quotient_lt q c =
     (case q of Finite x \<Rightarrow> x < c | PosInfinity \<Rightarrow> False | NegInfinity \<Rightarrow> True | NaN \<Rightarrow> False)"

text \<open>\<open>Math.round\<close>: the nearest integer, a tie going up.\<close>

definition Math_round :: "number \<Rightarrow> number" where
  "Math_round x = of_int \<lfloor>x + 1 / 2\<rfloor>"

text \<open>The decimal that \<open>x.toFixed(2)\<close> prints: the nearest multiple of 0.01, a tie going
  away from zero (\<open>toFixed\<close> rounds the magnitude and puts the sign back).\<close>

definition toFixed2 :: "number \<Rightarrow> number" where
  "toFixed2 x =
     (if x < 0 then - (of_int \<lfloor>- x * 100 + 1 / 2\<rfloor> / 100)
      else of_int \<lfloor>x * 100 + 1 / 2\<rfloor> / 100)"

subsection \<open>Double arithmetic\<close>

text \<open>
  The arithmetic of \<open>calculateRSI\<close> and of \<open>calculateDominanceIndex\<close> is that of IEEE 754
  binary64: each operation gives the double nearest to the exact result, a tie going to
  the even significand. \<open>exponent x\<close> is the binary exponent of \<open>x\<close>, kept between -1022
  (the subnormal numbers) and 1024; the doubles of that exponent are the multiples of
  \<open>2 powi (exponent x - 52)\<close>. A result at or beyond \<open>2 powi 1024\<close> is an infinity.
\<close>

definition round_half_even :: "real \<Rightarrow> int" where
  "round_half_even x =
     (let f = \<lfloor>x\<rfloor>; r = x - of_int f
      in if r < 1 / 2 then f else if 1 / 2 < r then f + 1 else if even f then f else f + 1)"

fun exponent_up :: "nat \<Rightarrow> int \<Rightarrow> real \<Rightarrow> int" where
  "exponent_up n e x =
     (if n = 0 then e else if 2 powi (e + 1) \<le> x then exponent_up (n - 1) (e + 1) x else e)"

fun exponent_down :: "nat \<Rightarrow> int \<Rightarrow> real \<Rightarrow> int" where
  "exponent_down n e x =
     (if n = 0 then e else if x < 2 powi e then exponent_down (n - 1) (e - 1) x else e)"

declare exponent_up.simps [simp del]

declare exponent_down.simps [simp del]

definition exponent :: "real \<Rightarrow> int" where
  "exponent x =
     (if 1 \<le> \<bar>x\<bar> then exponent_up 1024 0 \<bar>x\<bar> else exponent_down 1021 (- 1) \<bar>x\<bar>)"

text \<open>The nearest multiple of the unit in the last place, and the double it makes.\<close>

definition rounded :: "real \<Rightarrow> real" where
  "rounded x =
     of_int (round_half_even (x / 2 powi (exponent x - 52))) * 2 powi (exponent x - 52)"

definition toDouble :: "real \<Rightarrow> js_number" where
  "toDouble x =
     (if 2 powi 1024 \<le> rounded x then PosInfinity
      else if rounded x \<le> - (2 powi 1024) then NegInfinity
      else Finite (rounded x))"

text \<open>\<open>a + b\<close>, \<open>a - b\<close>, \<open>a * b\<close> and \<open>a / b\<close> on numbers.\<close>

fun js_add :: "js_number \<Rightarrow> js_number \<Rightarrow> js_number" where
  "js_add (Finite x) (Finite y) = toDouble (x + y)"
| "js_add NaN b = NaN"
| "js_add a NaN = NaN"
| "js_add PosInfinity NegInfinity = NaN"
| "js_add NegInfinity PosInfinity = NaN"
| "js_add PosInfinity b = PosInfinity"
| "js_add a PosInfinity = PosInfinity"
| "js_add NegInfinity b = NegInfinity"
| "js_add a NegInfinity = NegInfinity"

fun js_negate :: "js_number \<Rightarrow> js_number" where
  "js_negate (Finite x) = Finite (- x)"
| "js_negate PosInfinity = NegInfinity"
| "js_negate NegInfinity = PosInfinity"
| "js_negate NaN = NaN"

definition js_sub :: "js_number \<Rightarrow> js_number \<Rightarrow> js_number" where
  "js_sub a b = js_add a (js_negate b)"

fun js_mul :: "js_number \<Rightarrow> js_number \<Rightarrow> js_number" where
  "js_mul (Finite x) (Finite y) = toDouble (x * y)"
| "js_mul NaN b = NaN"
| "js_mul a NaN = NaN"
| "js_mul (Finite x) b = (if x = 0 then NaN else if 0 < x then b else js_negate b)"
| "js_mul a (Finite y) = (if y = 0 then NaN else if 0 < y then a else js_negate a)"
| "js_mul PosInfinity b = b"
| "js_mul NegInfinity b = js_negate b"

fun js_div :: "js_number \<Rightarrow> js_number \<Rightarrow> js_number" where
  "js_div (Finite x) (Finite y) =
     (if y \<noteq> 0 then toDouble (x / y)
      else if 0 < x then PosInfinity
      else if x < 0 then NegInfinity
      else NaN)"
| "js_div NaN b = NaN"
| "js_div a NaN = NaN"
| "js_div (Finite x) b = Finite 0"
| "js_div a (Finite y) = (if 0 \<le> y then a else js_negate a)"
| "js_div a b = NaN"

text \<open>\<open>Math.round\<close> of a number; the nearest integer of a double is a double.\<close>

definition Math_round_number :: "js_number \<Rightarrow> js_number" where
  "Math_round_number a = (case a of Finite x \<Rightarrow> Finite (Math_round x) | other \<Rightarrow> other)"

text \<open>\<open>Number(a.toFixed(2))\<close>: \<open>toFixed\<close> rounds the exact value of the double to a decimal
  with two places, and \<open>Number\<close> reads the decimal back as the nearest double. An infinity
  or \<open>NaN\<close> stays what it is.\<close>

definition Number_toFixed2 :: "js_number \<Rightarrow> js_number" where
  "Number_toFixed2 a = (case a of Finite x \<Rightarrow> toDouble (toFixed2 x) | other \<Rightarrow> other)"

text \<open>Every double is a multiple of the least positive one, \<open>2 powi (- 1074)\<close>.\<close>

definition on_grid :: "real \<Rightarrow> bool" where
  "on_grid x \<longleftrightarrow> of_int \<lfloor>x * 2 powi 1074\<rfloor> = x * 2 powi 1074"

subsection \<open>Strings\<close>

text \<open>\<open>toLowerCase\<close> on the ASCII letters, which is all the fixed term lists contain.\<close>

definition toLower_char :: "char \<Rightarrow> char" where
  "toLower_char c =
     (case map_of (zip ''ABCDEFGHIJKLMNOPQRSTUVWXYZ'' ''abcdefghijklmnopqrstuvwxyz'') c of
        Some d \<Rightarrow> d
      | None \<Rightarrow> c)"

definition toLowerCase :: "string \<Rightarrow> string" where
  "toLowerCase s = map toLower_char s"

text \<open>\<open>s.includes(t)\<close>: \<open>t\<close> occurs in \<open>s\<close> as a contiguous substring.\<close>

fun str_includes :: "string \<Rightarrow> string \<Rightarrow> bool" where
  "str_includes [] t = (t = [])"
| "str_includes (c # s) t = (prefix t (c # s) \<or> str_includes s t)"

text \<open>\<open>xs.join(', ')\<close>.\<close>

fun join_comma :: "string list \<Rightarrow> string" where
  "join_comma [] = []"
| "join_comma [x] = x"
| "join_comma (x # y # ys) = x @ '', '' @ join_comma (y # ys)"

text \<open>Decimal digits of a natural number, and \<open>x.toFixed(2)\<close> as text (positional
  notation, which \<open>toFixed\<close> prints for magnitudes below \<open>10^21\<close>).\<close>

definition digit_char :: "nat \<Rightarrow> char" where
  "digit_char d = ''0123456789'' ! (d mod 10)"

function show_nat :: "nat \<Rightarrow> string" where
  "show_nat n = (if n < 10 then [digit_char n] else show_nat (n div 10) @ [digit_char (n mod 10)])"
  by pat_completeness auto
termination
  by (relation "measure id") auto

declare show_nat.simps [simp del]

definition toFixed2_text :: "number \<Rightarrow> string" where
  "toFixed2_text x =
     (let h = nat \<lfloor>\<bar>x\<bar> * 100 + 1 / 2\<rfloor>
      in (if x < 0 then ''-'' else '''') @ show_nat (h div 100) @ ''.''
           @ [digit_char (h div 10 mod 10), digit_char (h mod 10)])"

section \<open>Data model of the market intelligence service\<close>

text \<open>
  Modelled from the spec: the record type of the market data provider
  (\<open>aiDataService.getMarketData\<close>), which the service takes as \<open>any\<close>. The spec's data
  model lists symbol, price, the 24h and 7d percent changes and the current and previous
  24h volume; the market cap, the volume change, the social and development counters and
  the moving averages may be absent. The symbol is a ticker identifier.
\<close>

record MarketRecord =
  symbol :: string
  price :: number
  percentChange24h :: number
  percentChange7d :: number
  volume24h :: number
  volume24hPrevious :: number
  volumeChange24h :: "number option"
  marketCap :: "number option"
  socialMentionsChange24h :: "number option"
  githubActivity24h :: "number option"
  ma50 :: "number option"
  ma200 :: "number option"

text \<open>
  Modelled from the spec: \<open>MarketSentiment\<close> of \<open>ai-data-service\<close>, with the fields the
  service reads; each may be absent (the service defaults them with \<open>??\<close> and \<open>||\<close>).
\<close>

record MarketSentiment =
  fearGreedIndex :: "number option"
  fearGreedLabel :: "string option"
  marketTrend :: "string option"
  volumeTrend :: "string option"

record Indicators =
  macd :: string
  rsi :: js_number
  movingAverages :: string

record TechnicalSignal =
  sentiment :: string
  indicators :: Indicators

record SentimentBlock =
  overall :: string
  blockFearGreedIndex :: number
  socialSentiment :: string
  topMentions :: "string list"

record TrendLists =
  shortTerm :: "string list"
  mediumTerm :: "string list"
  emerging :: "string list"

text \<open>A \<open>Record<string, X>\<close> built from \<open>{}\<close> is the list of its own properties in
  insertion order; \<open>obj[k] = v\<close> is \<open>AList.update k v\<close>, which overwrites in place or
  appends. The keys written are the symbols of the batch: ticker identifiers, none of
  them an array index or the name \<open>__proto__\<close>, which an assignment treats differently.\<close>

record Metrics =
  totalValueLocked :: string
  dailyVolume :: string
  dominanceIndex :: "(string \<times> js_number) list"

record MarketAnalysis =
  overview :: string
  analysisSentiment :: SentimentBlock
  trends :: TrendLists
  metrics :: Metrics
  technicalSignals :: "(string \<times> TechnicalSignal) list"

datatype error = ProviderError string | TypeError

section \<open>Technical scoring engine\<close>

definition calculateTechnicalSentiment :: "MarketRecord \<Rightarrow> string" where
  "calculateTechnicalSentiment token =
     (let priceChange = percentChange24h token;
          volume = volume24h token;
          prevVolume = or_number (volume24hPrevious token) 0
      in if priceChange > 5 \<and> volume > prevVolume then ''strongly bullish''
         else if priceChange > 2 \<and> volume > prevVolume then ''bullish''
         else if priceChange < - 5 \<and> volume > prevVolume then ''strongly bearish''
         else if priceChange < - 2 \<and> volume > prevVolume then ''bearish''
         else ''neutral'')"

definition calculateMACD :: "MarketRecord \<Rightarrow> string" where
  "calculateMACD token =
     (let shortTermChange = or_number (percentChange24h token) 0;
          longTermChange = or_number (percentChange7d token) 0
      in if shortTermChange > longTermChange then ''bullish'' else ''bearish'')"

text \<open>Each of the four operations of \<open>calculateRSI\<close> rounds to a double.\<close>

definition calculateRSI :: "MarketRecord \<Rightarrow> js_number" where
  "calculateRSI token =
     (let gains = max 0 (or_number (percentChange24h token) 0);
          losses = \<bar>min 0 (or_number (percentChange24h token) 0)\<bar>
      in Math_round_number
           (js_sub (Finite 100)
              (js_div (Finite 100)
                 (js_add (Finite 1) (js_div (Finite gains) (Finite (or_number losses 1)))))))"

definition analyzeMovingAverages :: "MarketRecord \<Rightarrow> string" where
  "analyzeMovingAverages token =
     (let p = or_number (price token) 0;
          m50 = or_optional (ma50 token) p;
          m200 = or_optional (ma200 token) p
      in if p > m50 \<and> m50 > m200 then ''strong uptrend''
         else if p > m50 then ''uptrend''
         else if p < m50 \<and> m50 < m200 then ''strong downtrend''
         else if p < m50 then ''downtrend''
         else ''sideways'')"

definition calculateIndicators :: "MarketRecord \<Rightarrow> Indicators" where
  "calculateIndicators token =
     \<lparr>macd = calculateMACD token,
      rsi = calculateRSI token,
      movingAverages = analyzeMovingAverages token\<rparr>"

definition generateTechnicalSignals :: "MarketRecord list \<Rightarrow> (string \<times> TechnicalSignal) list" where
  "generateTechnicalSignals marketData =
     foldl (\<lambda>signals token.
              AList.update (symbol token)
                \<lparr>sentiment = calculateTechnicalSentiment token,
                 indicators = calculateIndicators token\<rparr> signals)
           [] marketData"

text \<open>The total of \<open>calculateDominanceIndex\<close>: the \<open>reduce\<close> that adds
  \<open>token.marketCap || 0\<close> of every record to 0, each sum rounded to a double.\<close>

definition marketCapTotal :: "MarketRecord list \<Rightarrow> js_number" where
  "marketCapTotal marketData =
     foldl (\<lambda>sum token. js_add sum (Finite (or_optional (marketCap token) 0)))
       (Finite 0) marketData"

definition calculateDominanceIndex :: "MarketRecord list \<Rightarrow> (string \<times> js_number) list" where
  "calculateDominanceIndex marketData =
     (let total = marketCapTotal marketData
      in foldl (\<lambda>dominance token.
                  case marketCap token of
                    None \<Rightarrow> dominance
                  | Some cap \<Rightarrow>
                      if cap \<noteq> 0
                      then AList.update (symbol token)
                             (Number_toFixed2 (js_mul (js_div (Finite cap) total) (Finite 100)))
                             dominance
                      else dominance)
               [] marketData)"

text \<open>The average of an empty batch is \<open>0 / 0\<close>, which is \<open>NaN\<close>: both comparisons are
  false. The counts are compared with \<open>length * 0.6\<close>. The sums, the averages and that
  product are taken exactly.\<close>

definition extractShortTermTrends :: "MarketRecord list \<Rightarrow> string list" where
  "extractShortTermTrends marketData =
     (let volume24hChange =
            js_divide (foldl (\<lambda>sum token. sum + or_optional (volumeChange24h token) 0) 0 marketData)
                      (real (length marketData));
          t1 = (if quotient_gt volume24hChange 20 then [''High volume spike across markets''] else []);
          t2 = t1 @ (if quotient_lt volume24hChange (- 20)
                     then [''Volume declining across markets''] else []);
          gainers = length (filter (\<lambda>t. percentChange24h t > 5) marketData);
          losers = length (filter (\<lambda>t. percentChange24h t < - 5) marketData);
          t3 = t2 @ (if real gainers > real (length marketData) * 0.6
                     then [''Broad market rally''] else []);
          t4 = t3 @ (if real losers > real (length marketData) * 0.6
                     then [''Market-wide correction''] else [])
      in t4)"

definition extractMediumTermTrends :: "MarketRecord list \<Rightarrow> string list" where
  "extractMediumTermTrends marketData =
     (let avgChange7d =
            js_divide (foldl (\<lambda>sum token. sum + or_number (percentChange7d token) 0) 0 marketData)
                      (real (length marketData));
          t1 = (if quotient_gt avgChange7d 10 then [''Strong bullish week''] else []);
          t2 = t1 @ (if quotient_lt avgChange7d (- 10) then [''Bearish weekly trend''] else [])
      in t2)"

definition identifyEmergingTrends :: "MarketRecord list \<Rightarrow> string list" where
  "identifyEmergingTrends marketData =
     (let socialGaining =
            map symbol (filter (\<lambda>t. gt_optional (socialMentionsChange24h t) 50) marketData);
          t1 = (if length socialGaining > 0
                then [''Rising social interest in: '' @ join_comma socialGaining] else []);
          developmentActive =
            map symbol (filter (\<lambda>t. gt_optional (githubActivity24h t) 10) marketData);
          t2 = t1 @ (if length developmentActive > 0
                     then [''Active development in: '' @ join_comma developmentActive] else [])
      in t2)"

definition analyzeTrends :: "MarketRecord list \<Rightarrow> TrendLists" where
  "analyzeTrends marketData =
     \<lparr>shortTerm = extractShortTermTrends marketData,
      mediumTerm = extractMediumTermTrends marketData,
      emerging = identifyEmergingTrends marketData\<rparr>"

text \<open>\<open>generateMarketOverview\<close> sorts the array it is given in place (a stable sort,
  descending by 24h change), so it returns the sorted array with the text. Reading
  \<open>topPerformers[0].symbol\<close> of an empty batch throws a \<open>TypeError\<close>.\<close>

definition generateMarketOverview ::
  "MarketRecord list \<Rightarrow> MarketSentiment \<Rightarrow> error + (string \<times> MarketRecord list)" where
  "generateMarketOverview marketData s =
     (let sortedData = sort_key (\<lambda>t. - percentChange24h t) marketData;
          topPerformers = take 3 sortedData;
          overallSentiment =
            (if gt_optional (fearGreedIndex s) 65 then ''bullish''
             else if lt_optional (fearGreedIndex s) 35 then ''bearish'' else ''neutral'')
      in case topPerformers of
           [] \<Rightarrow> Inl TypeError
         | leader # _ \<Rightarrow>
             Inr (''Market is showing '' @ overallSentiment @ '' signals with '' @ symbol leader
                    @ '' leading gains at '' @ toFixed2_text (percentChange24h leader)
                    @ ''% in 24h. Volume trends indicate ''
                    @ (case volumeTrend s of None \<Rightarrow> ''stable''
                       | Some v \<Rightarrow> if v = [] then ''stable'' else v)
                    @ '' activity.'',
                  sortedData))"

record OnChainMetrics =
  tvl :: string
  volume :: string
  transactions :: string

definition getOnChainMetrics :: OnChainMetrics where
  "getOnChainMetrics = \<lparr>tvl = ''$845M'', volume = ''$324M'', transactions = ''24.5M''\<rparr>"

text \<open>
  \<open>generateMarketAnalysis\<close> awaits the provider (\<open>getMarketData\<close> and
  \<open>getMarketSentiment\<close>, joined by \<open>Promise.all\<close>); \<open>fetched\<close> is the outcome of that
  fetch. The \<open>catch\<close> block logs the error and throws it again. The trends and the signals
  are computed before the overview sorts the array, the dominance index after it.
\<close>

definition generateMarketAnalysis ::
  "error + (MarketRecord list \<times> MarketSentiment) \<Rightarrow> error + MarketAnalysis" where
  "generateMarketAnalysis fetched =
     (case fetched of
        Inl e \<Rightarrow> Inl e
      | Inr (marketData, s) \<Rightarrow>
          (let onChainMetrics = getOnChainMetrics;
               trendLists = analyzeTrends marketData;
               signals = generateTechnicalSignals marketData
           in case generateMarketOverview marketData s of
                Inl e \<Rightarrow> Inl e
              | Inr (overviewText, sortedData) \<Rightarrow>
                  Inr \<lparr>overview = overviewText,
                       analysisSentiment =
                         \<lparr>overall = (case marketTrend s of None \<Rightarrow> ''neutral'' | Some v \<Rightarrow> v),
                          blockFearGreedIndex = (case fearGreedIndex s of None \<Rightarrow> 0 | Some v \<Rightarrow> v),
                          socialSentiment = (case fearGreedLabel s of None \<Rightarrow> ''neutral'' | Some v \<Rightarrow> v),
                          topMentions = []\<rparr>,
                       trends = trendLists,
                       metrics =
                         \<lparr>totalValueLocked = tvl onChainMetrics,
                          dailyVolume = volume onChainMetrics,
                          dominanceIndex = calculateDominanceIndex sortedData\<rparr>,
                       technicalSignals = signals\<rparr>))"

section \<open>Market analysis cache\<close>

text \<open>The two private fields of the singleton service; a \<open>Date\<close> is its time in
  milliseconds.\<close>

record CacheState =
  lastUpdate :: "int option"
  cachedAnalysis :: "MarketAnalysis option"

definition CACHE_DURATION :: int where
  "CACHE_DURATION = 5 * 60 * 1000"

text \<open>\<open>now\<close> is what \<open>Date.now()\<close> reads.\<close>

definition shouldRefreshCache :: "CacheState \<Rightarrow> int \<Rightarrow> bool" where
  "shouldRefreshCache st now =
     (case lastUpdate st of
        None \<Rightarrow> True
      | Some updated \<Rightarrow>
          (case cachedAnalysis st of
             None \<Rightarrow> True
           | Some a \<Rightarrow> now - updated > CACHE_DURATION))"

text \<open>
  What a call leaves behind: the value the promise settles with (\<open>Inl\<close> a rejection), the
  fields of the service after the call, and how many times the call ran
  \<open>generateMarketAnalysis\<close>, that is, fetched from the provider.
\<close>

record 'a Settled =
  returned :: "error + 'a"
  cache :: CacheState
  fetches :: nat

text \<open>
  \<open>getMarketAnalysis\<close>: \<open>now\<close> is the clock at the freshness check, \<open>fetched\<close> the outcome
  of the provider fetch should one be made, \<open>done\<close> the clock read by \<open>new Date()\<close> once
  the recomputation has settled. When the recomputation rejects, neither the assignment
  to \<open>cachedAnalysis\<close> nor the one to \<open>lastUpdate\<close> is reached. The call returns the field
  \<open>cachedAnalysis\<close> as it then is (\<open>None\<close> would be \<open>null\<close>).
\<close>

definition getMarketAnalysis ::
  "CacheState \<Rightarrow> int \<Rightarrow> error + (MarketRecord list \<times> MarketSentiment) \<Rightarrow> int
     \<Rightarrow> (MarketAnalysis option) Settled" where
  "getMarketAnalysis st now fetched done =
     (if shouldRefreshCache st now
      then (case generateMarketAnalysis fetched of
              Inl e \<Rightarrow> \<lparr>returned = Inl e, cache = st, fetches = 1\<rparr>
            | Inr a \<Rightarrow>
                (let st1 = st\<lparr>cachedAnalysis := Some a\<rparr>;
                     st2 = st1\<lparr>lastUpdate := Some done\<rparr>
                 in \<lparr>returned = Inr (cachedAnalysis st2), cache = st2, fetches = 1\<rparr>))
      else \<lparr>returned = Inr (cachedAnalysis st), cache = st, fetches = 0\<rparr>)"

text \<open>
  What \<open>analyzePriceTrend\<close> can resolve to. Reading \<open>obj[k]\<close> of an object built from \<open>{}\<close>
  gives the own property \<open>k\<close> if there is one, and otherwise follows the prototype chain to
  \<open>Object.prototype\<close>, whose members are functions (and, for \<open>__proto__\<close>, the prototype
  object itself): all of them truthy.
\<close>

datatype js_any = Signal TechnicalSignal | ObjectPrototypeMember string | Undefined | Null

definition Object_prototype_names :: "string list" where
  "Object_prototype_names =
     [''constructor'', ''hasOwnProperty'', ''isPrototypeOf'', ''propertyIsEnumerable'',
      ''toLocaleString'', ''toString'', ''valueOf'', ''__proto__'',
      ''__defineGetter__'', ''__defineSetter__'', ''__lookupGetter__'', ''__lookupSetter__'']"

definition get_property :: "(string \<times> TechnicalSignal) list \<Rightarrow> string \<Rightarrow> js_any" where
  "get_property obj k =
     (case map_of obj k of
        Some v \<Rightarrow> Signal v
      | None \<Rightarrow> if k \<in> set Object_prototype_names then ObjectPrototypeMember k else Undefined)"

text \<open>\<open>v || null\<close>: of the values above only \<open>undefined\<close> and \<open>null\<close> are falsy.\<close>

definition or_null :: "js_any \<Rightarrow> js_any" where
  "or_null v = (case v of Undefined \<Rightarrow> Null | other \<Rightarrow> other)"

text \<open>Reading \<open>analysis.technicalSignals\<close> of \<open>null\<close> would throw a \<open>TypeError\<close>.\<close>

definition analyzePriceTrend ::
  "CacheState \<Rightarrow> int \<Rightarrow> error + (MarketRecord list \<times> MarketSentiment) \<Rightarrow> int \<Rightarrow> string
     \<Rightarrow> js_any Settled" where
  "analyzePriceTrend st now fetched done token =
     (let r = getMarketAnalysis st now fetched done
      in case returned r of
           Inl e \<Rightarrow> \<lparr>returned = Inl e, cache = cache r, fetches = fetches r\<rparr>
         | Inr None \<Rightarrow> \<lparr>returned = Inl TypeError, cache = cache r, fetches = fetches r\<rparr>
         | Inr (Some analysis) \<Rightarrow>
             \<lparr>returned = Inr (or_null (get_property (technicalSignals analysis) token)),
              cache = cache r, fetches = fetches r\<rparr>)"

section \<open>Suggestions of the query service\<close>

datatype expertise = Beginner | Intermediate | Advanced

text \<open>The context of a request: the fields that the functions below read.\<close>

record RequestContext =
  walletConnected :: bool
  walletAddress :: "string option"
  balance :: number
  expertiseLevel :: "expertise option"
  startTime :: "int option"




section \<open>Expertise level of the chat front end\<close>

text \<open>Modelled from the spec: \<open>AIMessage\<close> of \<open>lib/utils\<close>, a chat turn with its role and
  its text.\<close>

record AIMessage =
  role :: string
  content :: string

definition advancedTerms :: "string list" where
  "advancedTerms = [''liquidity pool'', ''impermanent loss'', ''mev'', ''yield farming'', ''amm'']"

definition intermediateTerms :: "string list" where
  "intermediateTerms = [''staking'', ''defi'', ''nft'', ''market cap'', ''swap'']"

definition determineUserExpertise :: "AIMessage list \<Rightarrow> expertise" where
  "determineUserExpertise messages =
     (let userMessages = map (\<lambda>m. toLowerCase (content m)) (filter (\<lambda>m. role m = ''user'') messages);
          hasAdvancedTerms =
            list_ex (\<lambda>msg. list_ex (\<lambda>t. str_includes msg t) advancedTerms) userMessages;
          hasIntermediateTerms =
            list_ex (\<lambda>msg. list_ex (\<lambda>t. str_includes msg t) intermediateTerms) userMessages
      in if hasAdvancedTerms then Advanced
         else if hasIntermediateTerms then Intermediate
         else Beginner)"

section \<open>Orchestration entry point\<close>

text \<open>The structured action request of a reply (\<open>intent?: any\<close>) is opaque here.\<close>

typedecl intent

record GrokResponse =
  message :: string
  intent :: "intent option"
  suggestions :: "string list option"

record Reply =
  replyMessage :: string
  replyIntent :: "intent option"
  replySuggestions :: "string list option"

definition fallbackReply :: Reply where
  "fallbackReply =
     \<lparr>replyMessage = ''I encountered an unexpected issue. Let me know what specific information you're looking for, and I'll help you out.'',
      replyIntent = None,
      replySuggestions = Some [''Check market trends'', ''View wallet balance'', ''Learn about DeFi'']\<rparr>"

text \<open>
  \<open>generateEnhancedResponse\<close> runs two steps inside its \<open>try\<close> block: the query service
  (\<open>grokService.processQuery\<close>) and the training adapter
  (\<open>aiTrainingAdapter.recordInteraction\<close>, whose module is not part of the sources). Both
  are parameters, each free to return or to throw. The \<open>catch\<close> block returns the fixed
  reply.
\<close>

definition generateEnhancedResponse ::
  "(string \<Rightarrow> RequestContext \<Rightarrow> error + GrokResponse) \<Rightarrow> (string \<Rightarrow> string \<Rightarrow> bool \<Rightarrow> error + unit)
     \<Rightarrow> string \<Rightarrow> RequestContext \<Rightarrow> error + Reply" where
  "generateEnhancedResponse processQuery recordInteraction prompt ctx =
     (let attempt =
            (case processQuery prompt (ctx\<lparr>walletAddress := walletAddress ctx\<rparr>) of
               Inl e \<Rightarrow> Inl e
             | Inr grokResponse \<Rightarrow>
                 (case recordInteraction prompt (message grokResponse) (walletConnected ctx) of
                    Inl e \<Rightarrow> Inl e
                  | Inr u \<Rightarrow>
                      Inr \<lparr>replyMessage = message grokResponse,
                           replyIntent = intent grokResponse,
                           replySuggestions = suggestions grokResponse\<rparr>))
      in case attempt of
           Inl e \<Rightarrow> Inr fallbackReply
         | Inr reply \<Rightarrow> Inr reply)"

section \<open>The oscillator as the specification words it\<close>

text \<open>gains = max(0, p), losses = abs(min(0, p)),
  value = round(100 - 100 / (1 + gains / max(losses, 1))), in the same arithmetic.\<close>

definition spec_oscillator :: "number \<Rightarrow> js_number" where
  "spec_oscillator p =
     (let gains = max 0 p; losses = \<bar>min 0 p\<bar>
      in Math_round_number
           (js_sub (Finite 100)
              (js_div (Finite 100)
                 (js_add (Finite 1) (js_div (Finite gains) (Finite (max losses 1)))))))"

section \<open>A sample batch\<close>

text \<open>Three records in the shape the provider returns: SOL up 6 percent on rising volume,
  BTC up 1 percent on falling volume, ETH down 7 percent on rising volume.\<close>

definition sample_SOL :: MarketRecord where
  "sample_SOL =
     \<lparr>symbol = ''SOL'', price = 150, percentChange24h = 6, percentChange7d = 4,
      volume24h = 1200, volume24hPrevious = 1000, volumeChange24h = Some 20,
      marketCap = Some 100, socialMentionsChange24h = Some 60, githubActivity24h = None,
      ma50 = None, ma200 = None\<rparr>"

definition sample_BTC :: MarketRecord where
  "sample_BTC =
     \<lparr>symbol = ''BTC'', price = 60000, percentChange24h = 1, percentChange7d = 3,
      volume24h = 900, volume24hPrevious = 1000, volumeChange24h = Some (- 10),
      marketCap = Some 100, socialMentionsChange24h = None, githubActivity24h = Some 12,
      ma50 = Some 58000, ma200 = Some 50000\<rparr>"

definition sample_ETH :: MarketRecord where
  "sample_ETH =
     \<lparr>symbol = ''ETH'', price = 3000, percentChange24h = - 7, percentChange7d = - 2,
      volume24h = 500, volume24hPrevious = 400, volumeChange24h = Some 25,
      marketCap = Some 100, socialMentionsChange24h = None, githubActivity24h = None,
      ma50 = Some 3100, ma200 = Some 3200\<rparr>"

definition sample_batch :: "MarketRecord list" where
  "sample_batch = [sample_SOL, sample_BTC, sample_ETH]"

text \<open>Two batches for the dominance index: one whose first share, 14.375, lies halfway
  between two decimals of two places, and one whose market caps add up to more than the
  largest double.\<close>

definition uneven_batch :: "MarketRecord list" where
  "uneven_batch = [sample_SOL\<lparr>marketCap := Some 23\<rparr>, sample_BTC\<lparr>marketCap := Some 137\<rparr>]"

definition overflow_batch :: "MarketRecord list" where
  "overflow_batch = [sample_SOL\<lparr>marketCap := Some (2 powi 1023)\<rparr>,
                     sample_BTC\<lparr>marketCap := Some (2 powi 1023)\<rparr>]"

definition sample_sentiment :: MarketSentiment where
  "sample_sentiment =
     \<lparr>fearGreedIndex = Some 70, fearGreedLabel = Some ''Greed'',
      marketTrend = Some ''bullish'', volumeTrend = None\<rparr>"

text \<open>The analysis that the sample batch and sentiment give.\<close>

definition sample_analysis :: MarketAnalysis where
  "sample_analysis =
     \<lparr>overview = ''Market is showing bullish signals with SOL leading gains at 6.00% in 24h. Volume trends indicate stable activity.'',
      analysisSentiment =
        \<lparr>overall = ''bullish'', blockFearGreedIndex = 70, socialSentiment = ''Greed'',
         topMentions = []\<rparr>,
      trends =
        \<lparr>shortTerm = [], mediumTerm = [],
         emerging = [''Rising social interest in: SOL'', ''Active development in: BTC'']\<rparr>,
      metrics =
        \<lparr>totalValueLocked = ''$845M'', dailyVolume = ''$324M'',
         dominanceIndex =
           [(''SOL'', toDouble 33.33), (''BTC'', toDouble 33.33), (''ETH'', toDouble 33.33)]\<rparr>,
      technicalSignals =
        [(''SOL'', \<lparr>sentiment = ''strongly bullish'',
                    indicators = \<lparr>macd = ''bullish'', rsi = Finite 86, movingAverages = ''sideways''\<rparr>\<rparr>),
         (''BTC'', \<lparr>sentiment = ''neutral'',
                    indicators = \<lparr>macd = ''bearish'', rsi = Finite 50, movingAverages = ''strong uptrend''\<rparr>\<rparr>),
         (''ETH'', \<lparr>sentiment = ''strongly bearish'',
                    indicators = \<lparr>macd = ''bearish'', rsi = Finite 0, movingAverages = ''strong downtrend''\<rparr>\<rparr>)]\<rparr>"

text \<open>The service before its first call, and holding the sample analysis computed at
  time 1000.\<close>

definition empty_cache :: CacheState where
  "empty_cache = \<lparr>lastUpdate = None, cachedAnalysis = None\<rparr>"

definition sample_cache :: CacheState where
  "sample_cache = \<lparr>lastUpdate = Some 1000, cachedAnalysis = Some sample_analysis\<rparr>"

section \<open>Properties of the scoring engine\<close>

lemma or_number_zero: "or_number x 0 = x"
  by (simp add: or_number_def)

text \<open>
  Claim C3. The sentiment label of a record is decided by the five tiers in order, the
  first match winning: a 24h change above 5 on rising volume is "strongly bullish", above
  2 on rising volume "bullish", below -5 on rising volume "strongly bearish", below -2 on
  rising volume "bearish", anything else "neutral". Every comparison is strict, so each
  label holds on exactly one region: a change of exactly 5 on rising volume is "bullish",
  and a volume equal to the previous volume is "neutral" whatever the change.
\<close>

theorem calculateTechnicalSentiment_tiers:
  "calculateTechnicalSentiment token =
     (if percentChange24h token > 5 \<and> volume24h token > volume24hPrevious token
      then ''strongly bullish''
      else if percentChange24h token > 2 \<and> volume24h token > volume24hPrevious token
      then ''bullish''
      else if percentChange24h token < - 5 \<and> volume24h token > volume24hPrevious token
      then ''strongly bearish''
      else if percentChange24h token < - 2 \<and> volume24h token > volume24hPrevious token
      then ''bearish''
      else ''neutral'')
   \<and> (calculateTechnicalSentiment token = ''strongly bullish'' \<longleftrightarrow>
        percentChange24h token > 5 \<and> volume24h token > volume24hPrevious token)
   \<and> (calculateTechnicalSentiment token = ''bullish'' \<longleftrightarrow>
        2 < percentChange24h token \<and> percentChange24h token \<le> 5
        \<and> volume24h token > volume24hPrevious token)
   \<and> (calculateTechnicalSentiment token = ''strongly bearish'' \<longleftrightarrow>
        percentChange24h token < - 5 \<and> volume24h token > volume24hPrevious token)
   \<and> (calculateTechnicalSentiment token = ''bearish'' \<longleftrightarrow>
        - 5 \<le> percentChange24h token \<and> percentChange24h token < - 2
        \<and> volume24h token > volume24hPrevious token)
   \<and> (calculateTechnicalSentiment token = ''neutral'' \<longleftrightarrow>
        volume24h token \<le> volume24hPrevious token
        \<or> (- 2 \<le> percentChange24h token \<and> percentChange24h token \<le> 2))
   \<and> (percentChange24h token = 5 \<and> volume24h token > volume24hPrevious token \<longrightarrow>
        calculateTechnicalSentiment token = ''bullish'')
   \<and> (volume24h token = volume24hPrevious token \<longrightarrow>
        calculateTechnicalSentiment token = ''neutral'')"
  by (auto simp add: calculateTechnicalSentiment_def or_number_zero Let_def)

theorem calculateTechnicalSentiment_tiers_witness:
  "calculateTechnicalSentiment sample_SOL = ''strongly bullish''
   \<and> calculateTechnicalSentiment sample_BTC = ''neutral''
   \<and> calculateTechnicalSentiment sample_ETH = ''strongly bearish''
   \<and> percentChange24h (sample_SOL\<lparr>percentChange24h := 5\<rparr>) = 5
   \<and> volume24h (sample_SOL\<lparr>percentChange24h := 5\<rparr>)
        > volume24hPrevious (sample_SOL\<lparr>percentChange24h := 5\<rparr>)
   \<and> calculateTechnicalSentiment (sample_SOL\<lparr>percentChange24h := 5\<rparr>) = ''bullish''
   \<and> volume24h (sample_SOL\<lparr>volume24h := 1000\<rparr>) = volume24hPrevious (sample_SOL\<lparr>volume24h := 1000\<rparr>)
   \<and> calculateTechnicalSentiment (sample_SOL\<lparr>volume24h := 1000\<rparr>) = ''neutral''"
  using calculateTechnicalSentiment_tiers [of sample_SOL]
    calculateTechnicalSentiment_tiers [of sample_BTC]
    calculateTechnicalSentiment_tiers [of sample_ETH]
    calculateTechnicalSentiment_tiers [of "sample_SOL\<lparr>percentChange24h := 5\<rparr>"]
    calculateTechnicalSentiment_tiers [of "sample_SOL\<lparr>volume24h := 1000\<rparr>"]
  by (simp add: sample_SOL_def sample_BTC_def sample_ETH_def)

subsection \<open>Double arithmetic\<close>

lemma pow2_step: "2 powi (e + 1) = 2 * (2 powi e :: real)"
  by (simp add: power_int_add)

lemma pow2_mono: "a \<le> b \<Longrightarrow> (2 powi a :: real) \<le> 2 powi b"
  by (rule power_int_increasing) simp_all

lemma pow2_less_imp: "(2 powi a :: real) < 2 powi b \<Longrightarrow> a < b"
  by (rule ccontr) (use pow2_mono [of b a] in simp)

lemma exponent_up_spec:
  "2 powi e \<le> x \<Longrightarrow>
   e \<le> exponent_up n e x \<and> exponent_up n e x \<le> e + int n
   \<and> 2 powi (exponent_up n e x) \<le> x
   \<and> (exponent_up n e x < e + int n \<longrightarrow> x < 2 powi (exponent_up n e x + 1))"
proof (induction n arbitrary: e)
  case 0
  then show ?case by (simp add: exponent_up.simps)
next
  case (Suc n)
  show ?case
  proof (cases "2 powi (e + 1) \<le> x")
    case True
    have eq: "exponent_up (Suc n) e x = exponent_up n (e + 1) x"
      using True by (subst exponent_up.simps) simp
    from Suc.IH [OF True] show ?thesis unfolding eq by auto
  next
    case False
    have eq: "exponent_up (Suc n) e x = e"
      using False by (subst exponent_up.simps) simp
    from False Suc.prems show ?thesis unfolding eq by simp
  qed
qed

lemma exponent_down_spec:
  "x < 2 powi (e + 1) \<Longrightarrow>
   e - int n \<le> exponent_down n e x \<and> exponent_down n e x \<le> e
   \<and> x < 2 powi (exponent_down n e x + 1)
   \<and> (e - int n < exponent_down n e x \<longrightarrow> 2 powi (exponent_down n e x) \<le> x)"
proof (induction n arbitrary: e)
  case 0
  then show ?case by (simp add: exponent_down.simps)
next
  case (Suc n)
  show ?case
  proof (cases "x < 2 powi e")
    case True
    have eq: "exponent_down (Suc n) e x = exponent_down n (e - 1) x"
      using True by (subst exponent_down.simps) simp
    from True have "x < 2 powi (e - 1 + 1)" by simp
    from Suc.IH [OF this] show ?thesis unfolding eq by auto
  next
    case False
    have eq: "exponent_down (Suc n) e x = e"
      using False by (subst exponent_down.simps) simp
    from False Suc.prems show ?thesis unfolding eq by simp
  qed
qed

lemma exponent_range: "- 1022 \<le> exponent x \<and> exponent x \<le> 1024"
proof (cases "1 \<le> \<bar>x\<bar>")
  case True
  then have "2 powi 0 \<le> \<bar>x\<bar>" by simp
  from exponent_up_spec [OF this, of 1024] True show ?thesis
    by (simp add: exponent_def)
next
  case False
  then have "\<bar>x\<bar> < 2 powi (- 1 + 1)" by simp
  from exponent_down_spec [OF this, of 1021] False show ?thesis
    by (simp add: exponent_def)
qed

lemma exponent_lower: "2 powi (- 1022) \<le> \<bar>x\<bar> \<Longrightarrow> 2 powi (exponent x) \<le> \<bar>x\<bar>"
proof (cases "1 \<le> \<bar>x\<bar>")
  case True
  then have "2 powi 0 \<le> \<bar>x\<bar>" by simp
  from exponent_up_spec [OF this, of 1024] True show ?thesis
    by (simp add: exponent_def)
next
  case False
  assume low: "2 powi (- 1022) \<le> \<bar>x\<bar>"
  from False have "\<bar>x\<bar> < 2 powi (- 1 + 1)" by simp
  from exponent_down_spec [OF this, of 1021]
  have r: "- 1022 \<le> exponent_down 1021 (- 1) \<bar>x\<bar>"
    and s: "- 1022 < exponent_down 1021 (- 1) \<bar>x\<bar>
          \<longrightarrow> 2 powi (exponent_down 1021 (- 1) \<bar>x\<bar>) \<le> \<bar>x\<bar>"
    by simp_all
  show ?thesis
  proof (cases "exponent_down 1021 (- 1) \<bar>x\<bar> = - 1022")
    case True
    with low False show ?thesis by (simp add: exponent_def)
  next
    case False
    with r s have "2 powi (exponent_down 1021 (- 1) \<bar>x\<bar>) \<le> \<bar>x\<bar>" by simp
    with \<open>\<not> 1 \<le> \<bar>x\<bar>\<close> show ?thesis by (simp add: exponent_def)
  qed
qed

lemma exponent_upper: "\<bar>x\<bar> < 2 powi 1024 \<Longrightarrow> \<bar>x\<bar> < 2 powi (exponent x + 1)"
proof (cases "1 \<le> \<bar>x\<bar>")
  case True
  assume high: "\<bar>x\<bar> < 2 powi 1024"
  from True have "2 powi 0 \<le> \<bar>x\<bar>" by simp
  from exponent_up_spec [OF this, of 1024]
  have r: "exponent_up 1024 0 \<bar>x\<bar> \<le> 1024"
    and l: "2 powi (exponent_up 1024 0 \<bar>x\<bar>) \<le> \<bar>x\<bar>"
    and s: "exponent_up 1024 0 \<bar>x\<bar> < 1024
          \<longrightarrow> \<bar>x\<bar> < 2 powi (exponent_up 1024 0 \<bar>x\<bar> + 1)"
    by simp_all
  have "exponent_up 1024 0 \<bar>x\<bar> \<noteq> 1024"
    using l high by auto
  with r s have "\<bar>x\<bar> < 2 powi (exponent_up 1024 0 \<bar>x\<bar> + 1)" by simp
  with True show ?thesis by (simp add: exponent_def)
next
  case False
  then have "\<bar>x\<bar> < 2 powi (- 1 + 1)" by simp
  from exponent_down_spec [OF this, of 1021] False show ?thesis
    by (simp add: exponent_def)
qed

lemma exponent_unique:
  assumes "2 powi e \<le> \<bar>x\<bar>" "\<bar>x\<bar> < 2 powi (e + 1)" "- 1022 \<le> e" "e \<le> 1023"
  shows "exponent x = e"
proof -
  have low: "2 powi (- 1022) \<le> \<bar>x\<bar>"
    using assms(1,3) pow2_mono [of "- 1022" e] by linarith
  have high: "\<bar>x\<bar> < 2 powi 1024"
    using assms(2,4) pow2_mono [of "e + 1" 1024] by linarith
  have "2 powi (exponent x) < (2 powi (e + 1) :: real)"
    using exponent_lower [OF low] assms(2) by linarith
  then have a: "exponent x < e + 1" by (rule pow2_less_imp)
  have "2 powi e < (2 powi (exponent x + 1) :: real)"
    using exponent_upper [OF high] assms(1) by linarith
  then have b: "e < exponent x + 1" by (rule pow2_less_imp)
  from a b show ?thesis by simp
qed

lemma exponent_subnormal: "\<bar>x\<bar> < 2 powi (- 1022) \<Longrightarrow> exponent x = - 1022"
proof -
  assume sub: "\<bar>x\<bar> < 2 powi (- 1022)"
  have "\<not> (- 1022 < exponent x)"
  proof
    assume gt: "- 1022 < exponent x"
    have "\<not> 1 \<le> \<bar>x\<bar>"
    proof
      assume "1 \<le> \<bar>x\<bar>"
      moreover have "(2 powi (- 1022) :: real) \<le> 2 powi 0" by (rule pow2_mono) simp
      ultimately show False using sub by simp
    qed
    then have lt1: "\<bar>x\<bar> < 2 powi (- 1 + 1)" and ex: "exponent x = exponent_down 1021 (- 1) \<bar>x\<bar>"
      by (simp_all add: exponent_def)
    from exponent_down_spec [OF lt1, of 1021] gt ex
    have "2 powi (exponent x) \<le> \<bar>x\<bar>" by simp
    moreover have "(2 powi (- 1022) :: real) \<le> 2 powi (exponent x)"
      using gt by (intro pow2_mono) simp
    ultimately show False using sub by linarith
  qed
  with exponent_range [of x] show ?thesis by simp
qed

lemma round_half_even_error: "\<bar>of_int (round_half_even x) - x\<bar> \<le> 1 / 2"
  unfolding round_half_even_def Let_def by (simp; linarith)

lemma round_half_even_int: "round_half_even (of_int k) = k"
  by (simp add: round_half_even_def)

lemma round_half_even_cases:
  "round_half_even x = \<lfloor>x\<rfloor> \<or> round_half_even x = \<lfloor>x\<rfloor> + 1"
  by (simp add: round_half_even_def Let_def)

lemma round_half_even_mono: "x \<le> y \<Longrightarrow> round_half_even x \<le> round_half_even y"
proof -
  assume le: "x \<le> y"
  have fl: "\<lfloor>x\<rfloor> \<le> \<lfloor>y\<rfloor>" using le by (rule floor_mono)
  show ?thesis
  proof (cases "\<lfloor>x\<rfloor> = \<lfloor>y\<rfloor>")
    case True
    then have "x - of_int \<lfloor>x\<rfloor> \<le> y - of_int \<lfloor>y\<rfloor>" using le by simp
    then show ?thesis
      unfolding round_half_even_def Let_def True by (simp; linarith)
  next
    case False
    with fl have lt: "\<lfloor>x\<rfloor> + 1 \<le> \<lfloor>y\<rfloor>" by simp
    have "round_half_even x \<le> \<lfloor>x\<rfloor> + 1"
      using round_half_even_cases [of x] by auto
    moreover have "\<lfloor>y\<rfloor> \<le> round_half_even y"
      using round_half_even_cases [of y] by auto
    ultimately show ?thesis using lt by simp
  qed
qed

lemma round_half_even_le_int: "x \<le> of_int k \<Longrightarrow> round_half_even x \<le> k"
  using round_half_even_mono [of x "of_int k"] by (simp add: round_half_even_int)

lemma round_half_even_ge_int: "of_int k \<le> x \<Longrightarrow> k \<le> round_half_even x"
  using round_half_even_mono [of "of_int k" x] by (simp add: round_half_even_int)

lemma pow2_split: "(2 powi e :: real) = 2 powi (e - 52) * 2 ^ 52"
proof -
  have "(2 powi e :: real) = 2 powi ((e - 52) + 52)" by simp
  also have "\<dots> = 2 powi (e - 52) * 2 powi 52" by (rule power_int_add) simp
  finally show ?thesis by simp
qed

lemma rounded_nonneg: "0 \<le> x \<Longrightarrow> 0 \<le> rounded x"
proof -
  assume "0 \<le> x"
  then have "of_int 0 \<le> x / 2 powi (exponent x - 52)" by simp
  then have "0 \<le> round_half_even (x / 2 powi (exponent x - 52))"
    by (rule round_half_even_ge_int)
  then show ?thesis by (simp add: rounded_def)
qed

lemma rounded_error: "\<bar>rounded x - x\<bar> \<le> 2 powi (exponent x - 52) / 2"
proof -
  let ?u = "2 powi (exponent x - 52) :: real"
  have pos: "0 < ?u" by simp
  have "\<bar>of_int (round_half_even (x / ?u)) - x / ?u\<bar> \<le> 1 / 2"
    by (rule round_half_even_error)
  then have "\<bar>of_int (round_half_even (x / ?u)) - x / ?u\<bar> * ?u \<le> 1 / 2 * ?u"
    using pos by (intro mult_right_mono) simp_all
  moreover have "\<bar>of_int (round_half_even (x / ?u)) - x / ?u\<bar> * ?u
      = \<bar>of_int (round_half_even (x / ?u)) * ?u - x\<bar>"
  proof -
    have "\<bar>of_int (round_half_even (x / ?u)) - x / ?u\<bar> * ?u
        = \<bar>(of_int (round_half_even (x / ?u)) - x / ?u) * ?u\<bar>"
      using pos by (simp add: abs_mult)
    also have "(of_int (round_half_even (x / ?u)) - x / ?u) * ?u
        = of_int (round_half_even (x / ?u)) * ?u - x"
      using pos by (simp add: left_diff_distrib)
    finally show ?thesis .
  qed
  ultimately show ?thesis by (simp add: rounded_def)
qed

lemma rounded_lower:
  assumes "2 powi (- 1022) \<le> x"
  shows "2 powi (exponent x) \<le> rounded x"
proof -
  let ?u = "2 powi (exponent x - 52) :: real"
  have pos: "0 < ?u" by simp
  have x0: "0 \<le> x" using assms zero_less_power_int [of "2 :: real" "- 1022"] by linarith
  have "2 powi (exponent x) \<le> x" using exponent_lower [of x] assms x0 by simp
  then have "?u * 2 ^ 52 \<le> x" using pow2_split [of "exponent x"] by simp
  then have "2 ^ 52 \<le> x / ?u" using pos by (simp add: pos_le_divide_eq mult.commute)
  then have "of_int (2 ^ 52) \<le> x / ?u" by simp
  then have "2 ^ 52 \<le> round_half_even (x / ?u)" by (rule round_half_even_ge_int)
  then have "(2 ^ 52 :: real) \<le> of_int (round_half_even (x / ?u))"
    by (metis of_int_le_iff of_int_numeral of_int_power)
  then have "2 ^ 52 * ?u \<le> of_int (round_half_even (x / ?u)) * ?u"
    using pos by (intro mult_right_mono) simp_all
  then show ?thesis using pow2_split [of "exponent x"] by (simp add: rounded_def mult.commute)
qed

lemma rounded_upper:
  assumes "0 \<le> x" "x < 2 powi 1024"
  shows "rounded x \<le> 2 powi (exponent x + 1)"
proof -
  let ?u = "2 powi (exponent x - 52) :: real"
  have pos: "0 < ?u" by simp
  have "x < 2 powi (exponent x + 1)" using exponent_upper [of x] assms by simp
  then have "x < ?u * 2 ^ 53"
    using pow2_split [of "exponent x + 1"] pow2_step [of "exponent x - 52"]
    by (simp add: pow2_step)
  then have "x / ?u \<le> 2 ^ 53" using pos by (simp add: pos_divide_le_eq mult.commute)
  then have "x / ?u \<le> of_int (2 ^ 53)" by simp
  then have "round_half_even (x / ?u) \<le> 2 ^ 53" by (rule round_half_even_le_int)
  then have "of_int (round_half_even (x / ?u)) \<le> (2 ^ 53 :: real)"
    by (metis of_int_le_iff of_int_numeral of_int_power)
  then have "of_int (round_half_even (x / ?u)) * ?u \<le> 2 ^ 53 * ?u"
    using pos by (intro mult_right_mono) simp_all
  moreover have "2 ^ 53 * ?u = 2 powi (exponent x + 1)"
    using pow2_split [of "exponent x"] by (simp add: pow2_step)
  ultimately show ?thesis unfolding rounded_def by linarith
qed

lemma toDouble_nonneg:
  "0 \<le> x \<Longrightarrow> toDouble x = (if 2 powi 1024 \<le> rounded x then PosInfinity else Finite (rounded x))"
proof -
  assume "0 \<le> x"
  then have "0 \<le> rounded x" by (rule rounded_nonneg)
  moreover have "(0 :: real) < 2 powi 1024" by simp
  ultimately have "\<not> rounded x \<le> - (2 powi 1024)" by linarith
  then show ?thesis by (simp add: toDouble_def)
qed

lemma toDouble_finite:
  assumes "0 \<le> x" "x < 2 powi 1023"
  shows "toDouble x = Finite (rounded x)" "0 \<le> rounded x" "rounded x \<le> 2 powi 1023"
    "\<bar>rounded x - x\<bar> \<le> x * 2 powi (- 53) + 2 powi (- 1075)"
proof -
  have x1024: "x < 2 powi 1024"
    using assms(2) pow2_mono [of 1023 1024] by linarith
  have e: "exponent x \<le> 1022"
  proof (cases "2 powi (- 1022) \<le> x")
    case True
    then have "2 powi (exponent x) \<le> x" using exponent_lower [of x] assms(1) by simp
    then have "2 powi (exponent x) < (2 powi 1023 :: real)" using assms(2) by linarith
    then have "exponent x < 1023" by (rule pow2_less_imp)
    then show ?thesis by simp
  next
    case False
    then have "exponent x = - 1022" using exponent_subnormal [of x] assms(1) by simp
    then show ?thesis by simp
  qed
  show nn: "0 \<le> rounded x" using assms(1) by (rule rounded_nonneg)
  have "rounded x \<le> 2 powi (exponent x + 1)" using assms(1) x1024 by (rule rounded_upper)
  also have "\<dots> \<le> 2 powi 1023" using e by (intro pow2_mono) simp
  finally show up: "rounded x \<le> 2 powi 1023" .
  have "(2 powi 1023 :: real) < 2 powi 1024"
    by (rule power_int_strict_increasing) simp_all
  with up have "\<not> 2 powi 1024 \<le> rounded x" by linarith
  then show "toDouble x = Finite (rounded x)"
    using toDouble_nonneg [OF assms(1)] by simp
  show "\<bar>rounded x - x\<bar> \<le> x * 2 powi (- 53) + 2 powi (- 1075)"
  proof (cases "2 powi (- 1022) \<le> x")
    case True
    then have l: "2 powi (exponent x) \<le> x" using exponent_lower [of x] assms(1) by simp
    have "2 powi (exponent x - 52) / 2 = 2 powi (exponent x) * (2 powi (- 53) :: real)"
    proof -
      have "(2 powi (exponent x - 52) :: real) = 2 powi (exponent x + (- 52))" by simp
      also have "\<dots> = 2 powi (exponent x) * 2 powi (- 52)" by (rule power_int_add) simp
      finally show ?thesis by (simp add: power_int_minus)
    qed
    also have "\<dots> \<le> x * 2 powi (- 53)" using l by (intro mult_right_mono) simp_all
    finally have "2 powi (exponent x - 52) / 2 \<le> x * 2 powi (- 53)" .
    moreover have "(0 :: real) \<le> 2 powi (- 1075)" by simp
    ultimately show ?thesis using rounded_error [of x] by linarith
  next
    case False
    then have "exponent x = - 1022" using exponent_subnormal [of x] assms(1) by simp
    then have "2 powi (exponent x - 52) / 2 = (2 powi (- 1075) :: real)"
      by (simp add: power_int_minus)
    moreover have "0 \<le> x * 2 powi (- 53)" using assms(1) by simp
    ultimately show ?thesis using rounded_error [of x] by linarith
  qed
qed

lemma exponent_nonneg: "1 \<le> x \<Longrightarrow> 0 \<le> exponent x"
proof -
  assume "1 \<le> x"
  then have "2 powi 0 \<le> \<bar>x\<bar>" and "1 \<le> \<bar>x\<bar>" by simp_all
  with exponent_up_spec [of 0 "\<bar>x\<bar>" 1024] show ?thesis by (simp add: exponent_def)
qed

lemma toDouble_ge_one:
  assumes "1 \<le> x"
  shows "toDouble x = PosInfinity \<or> (toDouble x = Finite (rounded x) \<and> 1 \<le> rounded x)"
proof -
  have "(2 powi (- 1022) :: real) \<le> 2 powi 0" by (rule pow2_mono) simp
  then have low: "2 powi (- 1022) \<le> x" using assms by simp
  have "(2 powi 0 :: real) \<le> 2 powi (exponent x)"
    using exponent_nonneg [OF assms] by (intro pow2_mono)
  also have "\<dots> \<le> rounded x" using low by (rule rounded_lower)
  finally have "1 \<le> rounded x" by simp
  then show ?thesis using toDouble_nonneg [of x] assms by auto
qed

lemma toDouble_le_bound:
  assumes "0 \<le> x" "x \<le> b" "b = of_int m * 2 powi (E - 52)"
    "2 powi E \<le> b" "b < 2 powi (E + 1)" "- 1022 \<le> E" "E \<le> 1023"
  shows "toDouble x = Finite (rounded x) \<and> 0 \<le> rounded x \<and> rounded x \<le> b"
proof -
  have b1024: "b < 2 powi 1024"
    using assms(5,7) pow2_mono [of "E + 1" 1024] by linarith
  then have x1024: "x < 2 powi 1024" using assms(2) by linarith
  have eE: "exponent x \<le> E"
  proof (cases "2 powi (- 1022) \<le> x")
    case True
    then have "2 powi (exponent x) \<le> x" using exponent_lower [of x] assms(1) by simp
    then have "2 powi (exponent x) < (2 powi (E + 1) :: real)" using assms(2,5) by linarith
    then have "exponent x < E + 1" by (rule pow2_less_imp)
    then show ?thesis by simp
  next
    case False
    then have "exponent x = - 1022" using exponent_subnormal [of x] assms(1) by simp
    then show ?thesis using assms(6) by simp
  qed
  have le: "rounded x \<le> b"
  proof (cases "exponent x = E")
    case True
    let ?u = "2 powi (E - 52) :: real"
    have pos: "0 < ?u" by simp
    have "x / ?u \<le> b / ?u" using assms(2) pos by (simp add: divide_right_mono)
    also have "b / ?u = of_int m" using assms(3) pos by simp
    finally have "round_half_even (x / ?u) \<le> m" by (rule round_half_even_le_int)
    then have "of_int (round_half_even (x / ?u)) \<le> (of_int m :: real)" by simp
    then have "of_int (round_half_even (x / ?u)) * ?u \<le> of_int m * ?u"
      using pos by (intro mult_right_mono) simp_all
    then show ?thesis using True assms(3) by (simp add: rounded_def)
  next
    case False
    with eE have "exponent x + 1 \<le> E" by simp
    then have "(2 powi (exponent x + 1) :: real) \<le> 2 powi E" by (rule pow2_mono)
    moreover have "rounded x \<le> 2 powi (exponent x + 1)"
      using assms(1) x1024 by (rule rounded_upper)
    ultimately show ?thesis using assms(4) by linarith
  qed
  with b1024 have "\<not> 2 powi 1024 \<le> rounded x" by linarith
  then have "toDouble x = Finite (rounded x)" using toDouble_nonneg [OF assms(1)] by simp
  with le rounded_nonneg [OF assms(1)] show ?thesis by simp
qed

lemma toDouble_le_100:
  "0 \<le> x \<Longrightarrow> x \<le> 100 \<Longrightarrow> toDouble x = Finite (rounded x) \<and> 0 \<le> rounded x \<and> rounded x \<le> 100"
  by (rule toDouble_le_bound [where m = "100 * 2 ^ 46" and E = 6]) simp_all

lemma toDouble_zero: "toDouble 0 = Finite 0"
  by (simp add: toDouble_def rounded_def round_half_even_def)

lemma toDouble_eval:
  assumes "0 \<le> x" "2 powi e \<le> x" "x < 2 powi (e + 1)" "- 1022 \<le> e" "e \<le> 1022"
  shows "toDouble x = Finite (of_int (round_half_even (x / 2 powi (e - 52))) * 2 powi (e - 52))"
proof -
  have ex: "exponent x = e"
    using assms by (intro exponent_unique) simp_all
  have "(2 powi (e + 1) :: real) \<le> 2 powi 1023" using assms(5) by (intro pow2_mono) simp
  then have "x < 2 powi 1023" using assms(3) by linarith
  from toDouble_finite(1) [OF assms(1) this] show ?thesis by (simp add: rounded_def ex)
qed

lemma Math_round_range: "0 \<le> x \<Longrightarrow> x \<le> 100 \<Longrightarrow> 0 \<le> Math_round x \<and> Math_round x \<le> 100"
proof -
  assume a: "0 \<le> x" and b: "x \<le> 100"
  have "0 \<le> \<lfloor>x + 1 / 2\<rfloor>" using a by (simp add: le_floor_iff)
  moreover have "\<lfloor>x + 1 / 2\<rfloor> \<le> 100"
  proof -
    have "x + 1 / 2 < real_of_int 100 + 1" using b by linarith
    then show ?thesis by (simp only: floor_le_iff)
  qed
  ultimately show ?thesis by (simp add: Math_round_def)
qed

lemma oscillator_tail:
  assumes "s = PosInfinity \<or> (\<exists>z. s = Finite z \<and> 1 \<le> z)"
  shows "\<exists>v. Math_round_number (js_sub (Finite 100) (js_div (Finite 100) s)) = Finite v
           \<and> 0 \<le> v \<and> v \<le> 100"
proof -
  have "\<exists>w. js_div (Finite 100) s = Finite w \<and> 0 \<le> w \<and> w \<le> 100"
  proof (cases "s = PosInfinity")
    case True
    then show ?thesis by simp
  next
    case False
    with assms obtain z where z: "s = Finite z" "1 \<le> z" by blast
    then have "0 \<le> 100 / z" "100 / z \<le> 100" by (simp_all add: field_simps)
    from toDouble_le_100 [OF this] z show ?thesis by simp
  qed
  then obtain w where w: "js_div (Finite 100) s = Finite w" "0 \<le> w" "w \<le> 100" by blast
  then have "0 \<le> 100 + - w" "100 + - w \<le> 100" by simp_all
  from toDouble_le_100 [OF this]
  obtain r where r: "js_sub (Finite 100) (Finite w) = Finite r" "0 \<le> r" "r \<le> 100"
    by (auto simp add: js_sub_def)
  from Math_round_range [OF r(2,3)] r(1) w(1) show ?thesis
    by (simp add: Math_round_number_def)
qed

lemma oscillator_sum:
  assumes "0 \<le> g" "0 < d"
  shows "js_add (Finite 1) (js_div (Finite g) (Finite d)) = PosInfinity
         \<or> (\<exists>z. js_add (Finite 1) (js_div (Finite g) (Finite d)) = Finite z \<and> 1 \<le> z)"
proof -
  have q0: "0 \<le> g / d" using assms by simp
  have q: "js_div (Finite g) (Finite d) = toDouble (g / d)" using assms by simp
  show ?thesis
  proof (cases "2 powi 1024 \<le> rounded (g / d)")
    case True
    then show ?thesis using toDouble_nonneg [OF q0] q by simp
  next
    case False
    then have f: "js_div (Finite g) (Finite d) = Finite (rounded (g / d))"
      using toDouble_nonneg [OF q0] q by simp
    have "1 \<le> 1 + rounded (g / d)" using rounded_nonneg [OF q0] by simp
    from toDouble_ge_one [OF this] show ?thesis unfolding f by auto
  qed
qed

subsection \<open>The oscillator\<close>

text \<open>
  Claim C4. For every 24h percent change \<open>p\<close> the oscillator computed by \<open>calculateRSI\<close>, in
  double arithmetic, is round(100 - 100 / (1 + max(0, p) / max(|min(0, p)|, 1))) computed
  in the same arithmetic, and it is a finite number between 0 and 100. Neither divisor is
  0, also when the losses term is 0: \<open>losses || 1\<close> is then 1, and the sum is at least 1.
\<close>

theorem calculateRSI_oscillator:
  "calculateRSI token = spec_oscillator (percentChange24h token)
   \<and> (\<exists>v. calculateRSI token = Finite v \<and> 0 \<le> v \<and> v \<le> 100)
   \<and> or_number \<bar>min 0 (percentChange24h token)\<bar> 1 \<noteq> 0
   \<and> js_add (Finite 1)
        (js_div (Finite (max 0 (percentChange24h token)))
           (Finite (or_number \<bar>min 0 (percentChange24h token)\<bar> 1))) \<noteq> Finite 0"
proof -
  let ?p = "percentChange24h token"
  let ?g = "max 0 ?p"
  let ?d = "or_number \<bar>min 0 ?p\<bar> 1"
  have p: "or_number ?p 0 = ?p" by (simp add: or_number_def)
  have g: "0 \<le> ?g" by simp
  have d: "0 < ?d"
  proof (cases "\<bar>min 0 ?p\<bar> = 0")
    case True
    then show ?thesis by (simp add: or_number_def)
  next
    case False
    then have "0 < \<bar>min 0 ?p\<bar>" by simp
    with False show ?thesis by (simp only: or_number_def if_False)
  qed
  have same: "js_div (Finite ?g) (Finite ?d) = js_div (Finite ?g) (Finite (max \<bar>min 0 ?p\<bar> 1))"
  proof (cases "0 < ?p")
    case True
    then show ?thesis by (simp add: or_number_def min_def max_def)
  next
    case False
    then have "?g = 0" by (simp add: max_def)
    moreover have "max \<bar>min 0 ?p\<bar> 1 \<noteq> 0" by (simp add: max_def)
    ultimately show ?thesis using d by simp
  qed
  have eq: "calculateRSI token = spec_oscillator ?p"
    unfolding calculateRSI_def spec_oscillator_def Let_def p same by (rule refl)
  from oscillator_sum [OF g d] oscillator_tail
  have range: "\<exists>v. calculateRSI token = Finite v \<and> 0 \<le> v \<and> v \<le> 100"
    unfolding calculateRSI_def Let_def p by blast
  have nz: "js_add (Finite 1) (js_div (Finite ?g) (Finite ?d)) \<noteq> Finite 0"
    using oscillator_sum [OF g d] by auto
  from eq range nz d show ?thesis by simp
qed

theorem calculateRSI_oscillator_witness:
  "calculateRSI (sample_SOL\<lparr>percentChange24h := 2573485501354569 / 18014398509481984\<rparr>) = Finite 13
   \<and> spec_oscillator (2573485501354569 / 18014398509481984) = Finite 13
   \<and> calculateRSI sample_SOL = Finite 86
   \<and> spec_oscillator 6 = Finite 86
   \<and> calculateRSI sample_ETH = Finite 0"
proof -
  have a1: "toDouble (2573485501354569 / 18014398509481984 / 1) = Finite (2573485501354569 / 18014398509481984)"
    using toDouble_eval [of "2573485501354569 / 18014398509481984 / 1" "- 3"] by (simp add: round_half_even_def)
  have a2: "toDouble (1 + 2573485501354569 / 18014398509481984) = Finite (2573485501354569 / 2251799813685248)"
    using toDouble_eval [of "1 + 2573485501354569 / 18014398509481984" 0] by (simp add: round_half_even_def)
  have a3: "toDouble (100 / (2573485501354569 / 2251799813685248)) = Finite (175 / 2)"
    using toDouble_eval [of "100 / (2573485501354569 / 2251799813685248)" 6] by (simp add: round_half_even_def)
  have a4: "toDouble (100 + - (175 / 2)) = Finite (25 / 2)"
    using toDouble_eval [of "100 + - (175 / 2)" 3] by (simp add: round_half_even_def)
  have b1: "toDouble (6 / 1) = Finite (6)"
    using toDouble_eval [of "6 / 1" 2] by (simp add: round_half_even_def)
  have b2: "toDouble (1 + 6) = Finite (7)"
    using toDouble_eval [of "1 + 6" 2] by (simp add: round_half_even_def)
  have b3: "toDouble (100 / (7)) = Finite (8042142191733029 / 562949953421312)"
    using toDouble_eval [of "100 / (7)" 3] by (simp add: round_half_even_def)
  have b4: "toDouble (100 + - (8042142191733029 / 562949953421312)) = Finite (6031606643799771 / 70368744177664)"
    using toDouble_eval [of "100 + - (8042142191733029 / 562949953421312)" 6] by (simp add: round_half_even_def)
  have c1: "toDouble (0 / 7) = Finite 0"
    using toDouble_zero by simp
  have c2: "toDouble (1 + 0) = Finite (1)"
    using toDouble_eval [of "1 + 0" 0] by (simp add: round_half_even_def)
  have c3: "toDouble (100 / (1)) = Finite (100)"
    using toDouble_eval [of "100 / (1)" 6] by (simp add: round_half_even_def)
  have c4: "toDouble (100 + - (100)) = Finite 0"
    using toDouble_zero by simp
  note steps = a1 [simplified] a2 [simplified] a3 [simplified] a4 [simplified]
    b1 [simplified] b2 [simplified] b3 [simplified] b4 [simplified]
    c1 [simplified] c2 [simplified] c3 [simplified] c4 [simplified]
  have a: "calculateRSI (sample_SOL\<lparr>percentChange24h := 2573485501354569 / 18014398509481984\<rparr>)
      = Finite 13"
    by (simp add: calculateRSI_def sample_SOL_def or_number_def js_sub_def Math_round_number_def
        Math_round_def steps)
  have b: "calculateRSI sample_SOL = Finite 86"
    by (simp add: calculateRSI_def sample_SOL_def or_number_def js_sub_def Math_round_number_def
        Math_round_def steps)
  have c: "calculateRSI sample_ETH = Finite 0"
    by (simp add: calculateRSI_def sample_ETH_def or_number_def js_sub_def Math_round_number_def
        Math_round_def steps)
  from a b c
    calculateRSI_oscillator
      [of "sample_SOL\<lparr>percentChange24h := 2573485501354569 / 18014398509481984\<rparr>"]
    calculateRSI_oscillator [of sample_SOL]
  show ?thesis by (simp add: sample_SOL_def)
qed

subsection \<open>The dominance index\<close>

text \<open>The sum of doubles below \<open>2 powi (- 1022)\<close> is exact, so every addition of the total
  has a relative error of at most \<open>2 powi (- 53)\<close>.\<close>

lemma on_grid_multiple: "on_grid x \<longleftrightarrow> (\<exists>m :: int. x = of_int m * 2 powi (- 1074))"
proof -
  have inv: "(2 powi 1074 :: real) * 2 powi (- 1074) = 1"
    by (simp add: power_int_minus)
  show ?thesis
  proof
    assume "on_grid x"
    then have "of_int \<lfloor>x * 2 powi 1074\<rfloor> * 2 powi (- 1074) = x * (2 powi 1074 * 2 powi (- 1074))"
      unfolding on_grid_def by (simp only: mult.assoc)
    then have "x = of_int \<lfloor>x * 2 powi 1074\<rfloor> * 2 powi (- 1074)"
      unfolding inv mult_1_right by (rule sym)
    then show "\<exists>m :: int. x = of_int m * 2 powi (- 1074)" by (rule exI)
  next
    assume "\<exists>m :: int. x = of_int m * 2 powi (- 1074)"
    then obtain m :: int where m: "x = of_int m * 2 powi (- 1074)" by blast
    have "x * 2 powi 1074 = of_int m * (2 powi (- 1074) * 2 powi 1074)"
      unfolding m by (simp only: mult.assoc)
    also have "\<dots> = of_int m" using inv by (simp only: mult.commute [of "2 powi (- 1074)"] mult_1_right)
    finally have "x * 2 powi 1074 = of_int m" .
    then show "on_grid x" unfolding on_grid_def by (simp only: floor_of_int)
  qed
qed

lemma on_grid_zero: "on_grid 0"
  unfolding on_grid_multiple by (rule exI [of _ 0]) simp

lemma on_grid_add: "on_grid x \<Longrightarrow> on_grid y \<Longrightarrow> on_grid (x + y)"
proof -
  assume "on_grid x" "on_grid y"
  then obtain m n :: int where "x = of_int m * 2 powi (- 1074)" "y = of_int n * 2 powi (- 1074)"
    unfolding on_grid_multiple by blast
  then have "x + y = of_int (m + n) * 2 powi (- 1074)" by (simp add: distrib_right)
  then show ?thesis unfolding on_grid_multiple by blast
qed

lemma on_grid_rounded: "on_grid (rounded x)"
proof -
  let ?e = "exponent x"
  have e: "0 \<le> ?e + 1022" using exponent_range [of x] by simp
  have "(2 powi (?e - 52) :: real) = 2 powi ((?e + 1022) + (- 1074))" by simp
  also have "\<dots> = 2 powi (?e + 1022) * 2 powi (- 1074)" by (rule power_int_add) simp
  also have "(2 powi (?e + 1022) :: real) = of_int (2 ^ nat (?e + 1022))"
    using e by (simp add: power_int_def)
  finally have "rounded x
      = of_int (round_half_even (x / 2 powi (?e - 52)) * 2 ^ nat (?e + 1022)) * 2 powi (- 1074)"
    by (simp add: rounded_def)
  then show ?thesis unfolding on_grid_multiple by blast
qed

lemma on_grid_double: "toDouble c = Finite c \<Longrightarrow> on_grid c"
proof -
  assume "toDouble c = Finite c"
  then have "rounded c = c" by (simp add: toDouble_def split: if_splits)
  then show ?thesis using on_grid_rounded [of c] by simp
qed

lemma rounded_subnormal_exact:
  assumes "on_grid x" "0 \<le> x" "x < 2 powi (- 1022)"
  shows "rounded x = x"
proof -
  from assms(1) obtain m :: int where m: "x = of_int m * 2 powi (- 1074)"
    unfolding on_grid_multiple by blast
  have e: "exponent x = - 1022" using exponent_subnormal [of x] assms(2,3) by simp
  then have p: "exponent x - 52 = - 1074" by simp
  have q: "x / 2 powi (- 1074) = of_int m" unfolding m by simp
  have "rounded x = of_int (round_half_even (of_int m)) * 2 powi (- 1074)"
    unfolding rounded_def p q by (rule refl)
  then show ?thesis unfolding round_half_even_int m .
qed

lemma rounded_grid_error:
  assumes "on_grid x" "0 \<le> x"
  shows "\<bar>rounded x - x\<bar> \<le> x * 2 powi (- 53)"
proof (cases "2 powi (- 1022) \<le> x")
  case True
  then have l: "2 powi (exponent x) \<le> x" using exponent_lower [of x] assms(2) by simp
  have "2 powi (exponent x - 52) / 2 = 2 powi (exponent x) * (2 powi (- 53) :: real)"
  proof -
    have "(2 powi (exponent x - 52) :: real) = 2 powi (exponent x + (- 52))" by simp
    also have "\<dots> = 2 powi (exponent x) * 2 powi (- 52)" by (rule power_int_add) simp
    finally show ?thesis by (simp add: power_int_minus)
  qed
  also have "\<dots> \<le> x * 2 powi (- 53)" using l by (intro mult_right_mono) simp_all
  finally show ?thesis using rounded_error [of x] by linarith
next
  case False
  then have "rounded x = x" using rounded_subnormal_exact [OF assms] by simp
  then show ?thesis using assms(2) by simp
qed


lemma total_infinite:
  "foldl (\<lambda>sum token. js_add sum (Finite (or_optional (marketCap token) 0))) PosInfinity md
   = PosInfinity"
  by (induction md) simp_all

lemma toDouble_nonneg_cases:
  assumes "0 \<le> x"
  shows "toDouble x = PosInfinity \<or> toDouble x = Finite (rounded x)"
  using rounded_nonneg [OF assms] by (simp add: toDouble_def)

lemma total_error:
  assumes "\<forall>t\<in>set md. \<exists>c. marketCap t = Some c \<and> 0 < c \<and> toDouble c = Finite c"
    and "0 \<le> a" and "on_grid a" and "0 \<le> S"
    and "\<bar>a - S\<bar> \<le> 2 * real k * 2 powi (- 53) * S"
    and "foldl (\<lambda>sum token. js_add sum (Finite (or_optional (marketCap token) 0))) (Finite a) md
         = Finite tot"
    and "2 * real (k + length md) * 2 powi (- 53) \<le> (1 :: real)"
  shows "\<bar>tot - (S + sum_list (map (\<lambda>t. or_optional (marketCap t) 0) md))\<bar>
         \<le> 2 * real (k + length md) * 2 powi (- 53)
             * (S + sum_list (map (\<lambda>t. or_optional (marketCap t) 0) md))"
  using assms
proof (induction md arbitrary: a S k)
  case Nil
  then show ?case by simp
next
  case (Cons t md)
  define u :: real where "u = 2 powi (- 53)"
  have u: "0 \<le> u" by (simp add: u_def)
  from Cons.prems(1) obtain c where c: "marketCap t = Some c" "0 < c" "toDouble c = Finite c"
    by auto
  have cap: "or_optional (marketCap t) 0 = c" using c by (simp add: or_optional_def or_number_def)
  have x: "0 \<le> a + c" using Cons.prems(2) c(2) by simp
  have g: "on_grid (a + c)" using Cons.prems(3) on_grid_double [OF c(3)] by (rule on_grid_add)
  have fin: "toDouble (a + c) = Finite (rounded (a + c))"
  proof (rule ccontr)
    assume "toDouble (a + c) \<noteq> Finite (rounded (a + c))"
    then have "toDouble (a + c) = PosInfinity" using toDouble_nonneg_cases [OF x] by simp
    then show False using Cons.prems(6) by (simp add: cap total_infinite)
  qed
  have rest: "foldl (\<lambda>sum token. js_add sum (Finite (or_optional (marketCap token) 0)))
                (Finite (rounded (a + c))) md = Finite tot"
    using Cons.prems(6) by (simp add: cap fin)
  have k1: "2 * real k * u \<le> 1"
  proof -
    have "2 * real k * u \<le> 2 * real (k + length (t # md)) * u"
      using u by (intro mult_right_mono) simp_all
    then show ?thesis using Cons.prems(7) unfolding u_def by linarith
  qed
  have e1: "\<bar>rounded (a + c) - (a + c)\<bar> \<le> (a + c) * u"
    unfolding u_def using g x by (rule rounded_grid_error)
  have aS: "\<bar>a - S\<bar> \<le> 2 * real k * u * S" using Cons.prems(5) by (simp add: u_def)
  have "a \<le> S + 2 * real k * u * S" using aS by linarith
  also have "\<dots> \<le> S + 1 * S" using k1 Cons.prems(4) by (intro add_left_mono mult_right_mono)
  finally have a2: "a \<le> 2 * S" by simp
  have "(a + c) * u \<le> (2 * S + 2 * c) * u"
    using a2 c(2) u by (intro mult_right_mono) simp_all
  then have "\<bar>rounded (a + c) - (S + c)\<bar> \<le> 2 * real k * u * S + (2 * S + 2 * c) * u"
    using e1 aS by linarith
  also have "\<dots> \<le> 2 * real (Suc k) * u * (S + c)"
  proof -
    have "0 \<le> 2 * real k * u * c" using u c(2) by simp
    then show ?thesis by (simp add: algebra_simps)
  qed
  finally have inv: "\<bar>rounded (a + c) - (S + c)\<bar> \<le> 2 * real (Suc k) * 2 powi (- 53) * (S + c)"
    by (simp add: u_def)
  have len: "2 * real (Suc k + length md) * 2 powi (- 53) \<le> (1 :: real)"
    using Cons.prems(7) by simp
  have all: "\<forall>t\<in>set md. \<exists>c. marketCap t = Some c \<and> 0 < c \<and> toDouble c = Finite c"
    using Cons.prems(1) by simp
  have "\<bar>tot - ((S + c) + sum_list (map (\<lambda>t. or_optional (marketCap t) 0) md))\<bar>
         \<le> 2 * real (Suc k + length md) * 2 powi (- 53)
             * ((S + c) + sum_list (map (\<lambda>t. or_optional (marketCap t) 0) md))"
    using all rounded_nonneg [OF x] on_grid_rounded _ inv rest len
  proof (rule Cons.IH)
    show "0 \<le> S + c" using Cons.prems(4) c(2) by simp
  qed
  then show ?case by (simp add: cap add.assoc)
qed


lemma toFixed2_error: "\<bar>toFixed2 x - x\<bar> \<le> 1 / 200"
proof (cases "x < 0")
  case True
  define r where "r = real_of_int \<lfloor>- x * 100 + 1 / 2\<rfloor>"
  have eq: "toFixed2 x = - (r / 100)" using True by (simp add: toFixed2_def r_def)
  have "r \<le> - x * 100 + 1 / 2" "- x * 100 + 1 / 2 < r + 1" unfolding r_def by linarith+
  then show ?thesis unfolding eq by linarith
next
  case False
  define r where "r = real_of_int \<lfloor>x * 100 + 1 / 2\<rfloor>"
  have eq: "toFixed2 x = r / 100" using False by (simp add: toFixed2_def r_def)
  have "r \<le> x * 100 + 1 / 2" "x * 100 + 1 / 2 < r + 1" unfolding r_def by linarith+
  then show ?thesis unfolding eq by linarith
qed

lemma unit_roundoff_small:
  "(2 powi (- 53) :: real) \<le> 1 / 1000000" "(2 powi (- 1075) :: real) \<le> 2 powi (- 53)"
  "(0 :: real) < 2 powi (- 53)" "(0 :: real) < 2 powi (- 1075)"
proof -
  have "(2 powi (- 53) :: real) = 1 / 2 ^ 53" by (simp add: power_int_minus field_simps)
  then show "(2 powi (- 53) :: real) \<le> 1 / 1000000" by simp
  show "(2 powi (- 1075) :: real) \<le> 2 powi (- 53)" by (rule power_int_increasing) simp_all
qed simp_all

lemma quotient_error:
  fixes c T tot h :: real
  assumes "0 < T" "0 < c" "c \<le> T" "\<bar>tot - T\<bar> \<le> h * T" "0 \<le> h" "h \<le> 1 / 2"
  shows "0 < tot" "c / tot \<le> 2" "\<bar>c / tot - c / T\<bar> \<le> 2 * h"
proof -
  have "h * T \<le> 1 / 2 * T" using assms(1,6) by (intro mult_right_mono) simp_all
  then have half: "T / 2 \<le> tot" using assms(4) by linarith
  then show pos: "0 < tot" using assms(1) by linarith
  have "c \<le> 2 * tot" using half assms(3) by linarith
  then show "c / tot \<le> 2" using pos by (simp add: field_simps)
  have "c / tot - c / T = c * (T - tot) / (tot * T)"
    using pos assms(1) by (simp add: field_simps)
  then have "\<bar>c / tot - c / T\<bar> = c * \<bar>T - tot\<bar> / (tot * T)"
    using pos assms(1,2) by (simp add: abs_mult)
  also have "\<dots> \<le> c * (h * T) / (tot * T)"
    using pos assms(1,2,4) by (intro divide_right_mono mult_left_mono) simp_all
  also have "\<dots> = h * (c / tot)" using assms(1) by simp
  also have "\<dots> \<le> h * 2" using \<open>c / tot \<le> 2\<close> assms(5) by (intro mult_left_mono)
  finally show "\<bar>c / tot - c / T\<bar> \<le> 2 * h" by simp
qed


lemma pow2_1023_large: "(1024 :: real) \<le> 2 powi 1023"
proof -
  have "(2 powi 10 :: real) \<le> 2 powi 1023" by (rule power_int_increasing) simp_all
  then show ?thesis by simp
qed

lemma share_error:
  fixes c T tot h :: real
  assumes "0 < T" "0 < c" "c \<le> T" "\<bar>tot - T\<bar> \<le> h * T" "0 \<le> h" "h \<le> 1 / 2"
  shows "\<exists>k v. 0 \<le> k \<and> v = rounded (of_int k / 100)
           \<and> Number_toFixed2 (js_mul (js_div (Finite c) (Finite tot)) (Finite 100)) = Finite v
           \<and> \<bar>v - c / T * 100\<bar>
               \<le> 1 / 200 + 802 * 2 powi (- 53) + 102 * 2 powi (- 1075) + 200 * h"
proof -
  define u :: real where "u = 2 powi (- 53)"
  define n :: real where "n = 2 powi (- 1075)"
  have u: "0 < u" "u \<le> 1 / 1000000" "0 < n" "n \<le> u"
    using unit_roundoff_small by (simp_all add: u_def n_def)
  define r where "r = c / tot"
  define q where "q = rounded r"
  define p where "p = q * 100"
  define s where "s = rounded p"
  define k where "k = \<lfloor>s * 100 + 1 / 2\<rfloor>"
  define d where "d = real_of_int k / 100"
  define v where "v = rounded d"
  have tot: "0 < tot" and r2: "r \<le> 2" and rT: "\<bar>r - c / T\<bar> \<le> 2 * h"
    unfolding r_def using quotient_error [OF assms] by blast+
  have r0: "0 \<le> r" unfolding r_def using assms(2) tot by simp
  have "r < 2 powi 1023" using r2 pow2_1023_large by linarith
  note fr = toDouble_finite [OF r0 this]
  have "r * u \<le> 2 * u" using r2 u(1) by (intro mult_right_mono) simp_all
  then have eq: "\<bar>q - r\<bar> \<le> 2 * u + n" using fr(4) unfolding q_def u_def n_def by linarith
  have q0: "0 \<le> q" unfolding q_def by (rule fr(2))
  have q3: "q \<le> 3" using eq r2 u by linarith
  have dv: "js_div (Finite c) (Finite tot) = Finite q"
    using tot fr(1) by (simp add: q_def r_def)
  have p0: "0 \<le> p" unfolding p_def using q0 by simp
  have p300: "p \<le> 300" unfolding p_def using q3 by simp
  have "p < 2 powi 1023" using p300 pow2_1023_large by linarith
  note fp = toDouble_finite [OF p0 this]
  have "p * u \<le> 300 * u" using p300 u(1) by (intro mult_right_mono) simp_all
  then have es: "\<bar>s - p\<bar> \<le> 300 * u + n" using fp(4) unfolding s_def u_def n_def by linarith
  have s0: "0 \<le> s" unfolding s_def by (rule fp(2))
  have s301: "s \<le> 301" using es p300 u by linarith
  have mu: "js_mul (Finite q) (Finite 100) = Finite s"
    using fp(1) by (simp add: s_def p_def)
  have fx: "toFixed2 s = d" using s0 by (simp add: toFixed2_def d_def k_def)
  have k0: "0 \<le> k" unfolding k_def using s0 by simp
  have ed: "\<bar>d - s\<bar> \<le> 1 / 200" using toFixed2_error [of s] unfolding fx .
  have d0: "0 \<le> d" unfolding d_def using k0 by simp
  have d302: "d \<le> 302" using ed s301 by linarith
  have "d < 2 powi 1023" using d302 pow2_1023_large by linarith
  note fd = toDouble_finite [OF d0 this]
  have "d * u \<le> 302 * u" using d302 u(1) by (intro mult_right_mono) simp_all
  then have ev: "\<bar>v - d\<bar> \<le> 302 * u + n" using fd(4) unfolding v_def u_def n_def by linarith
  have nf: "Number_toFixed2 (Finite s) = Finite v"
    using fd(1) by (simp add: Number_toFixed2_def fx v_def)
  define w where "w = c / T"
  have b: "v - d \<le> 302 * u + n" "d - v \<le> 302 * u + n" "d - s \<le> 1 / 200" "s - d \<le> 1 / 200"
    "s - q * 100 \<le> 300 * u + n" "q * 100 - s \<le> 300 * u + n"
    "q - r \<le> 2 * u + n" "r - q \<le> 2 * u + n" "r - w \<le> 2 * h" "w - r \<le> 2 * h"
    using ev ed es eq rT unfolding p_def w_def by linarith+
  have "v - w * 100 \<le> 1 / 200 + 802 * u + 102 * n + 200 * h"
    "w * 100 - v \<le> 1 / 200 + 802 * u + 102 * n + 200 * h"
    using b by linarith+
  then have "\<bar>v - c / T * 100\<bar> \<le> 1 / 200 + 802 * u + 102 * n + 200 * h"
    unfolding w_def by linarith
  then have "0 \<le> k \<and> v = rounded (of_int k / 100)
           \<and> Number_toFixed2 (js_mul (js_div (Finite c) (Finite tot)) (Finite 100)) = Finite v
           \<and> \<bar>v - c / T * 100\<bar>
               \<le> 1 / 200 + 802 * 2 powi (- 53) + 102 * 2 powi (- 1075) + 200 * h"
    using k0 unfolding dv mu nf u_def n_def v_def d_def by simp
  then show ?thesis by blast
qed


lemma update_fresh: "k \<notin> fst ` set al \<Longrightarrow> AList.update k v al = al @ [(k, v)]"
  by (induction al) auto

lemma update_keys_insert: "fst ` set (AList.update k v al) = insert k (fst ` set al)"
  by (induction al) auto

lemma dominance_fold_distinct:
  "\<forall>t\<in>set md. \<exists>c. marketCap t = Some c \<and> c \<noteq> 0 \<Longrightarrow> distinct (map symbol md) \<Longrightarrow>
   fst ` set acc \<inter> symbol ` set md = {} \<Longrightarrow>
   foldl (\<lambda>dominance token.
            case marketCap token of
              None \<Rightarrow> dominance
            | Some cap \<Rightarrow>
                if cap \<noteq> 0
                then AList.update (symbol token)
                       (Number_toFixed2 (js_mul (js_div (Finite cap) tt) (Finite 100))) dominance
                else dominance) acc md
   = acc @ map (\<lambda>t. (symbol t,
                 Number_toFixed2
                   (js_mul (js_div (Finite (or_optional (marketCap t) 0)) tt) (Finite 100)))) md"
proof (induction md arbitrary: acc)
  case Nil
  then show ?case by simp
next
  case (Cons t md)
  from Cons.prems(1) obtain c where c: "marketCap t = Some c" "c \<noteq> 0" by auto
  have fresh: "symbol t \<notin> fst ` set acc" using Cons.prems(3) by auto
  let ?v = "Number_toFixed2 (js_mul (js_div (Finite c) tt) (Finite 100))"
  have disj: "fst ` set (acc @ [(symbol t, ?v)]) \<inter> symbol ` set md = {}"
    using Cons.prems(2,3) by auto
  have "\<forall>t\<in>set md. \<exists>c. marketCap t = Some c \<and> c \<noteq> 0" "distinct (map symbol md)"
    using Cons.prems(1,2) by auto
  from Cons.IH[OF this disj] show ?case
    using c by (simp add: update_fresh[OF fresh] or_optional_def or_number_def)
qed

lemma dominance_fold_keys:
  "fst ` set (foldl (\<lambda>dominance token.
            case marketCap token of
              None \<Rightarrow> dominance
            | Some cap \<Rightarrow>
                if cap \<noteq> 0
                then AList.update (symbol token)
                       (Number_toFixed2 (js_mul (js_div (Finite cap) tt) (Finite 100))) dominance
                else dominance) acc md)
   = fst ` set acc \<union> symbol ` {t \<in> set md. \<exists>c. marketCap t = Some c \<and> c \<noteq> 0}"
proof (induction md arbitrary: acc)
  case Nil
  then show ?case by simp
next
  case (Cons t md)
  let ?P = "\<lambda>t. \<exists>c. marketCap t = Some c \<and> c \<noteq> 0"
  have split: "{x \<in> set (t # md). ?P x} = (if ?P t then insert t {x \<in> set md. ?P x} else {x \<in> set md. ?P x})"
    by auto
  show ?case
  proof (cases "?P t")
    case True
    then obtain c where c: "marketCap t = Some c" "c \<noteq> 0" by blast
    show ?thesis
      unfolding split using True c
      by (simp add: Cons.IH update_keys_insert)
  next
    case False
    then have "marketCap t = None \<or> marketCap t = Some 0" by (cases "marketCap t") auto
    then show ?thesis
      unfolding split using False
      by (auto simp add: Cons.IH)
  qed
qed

lemma shares_sum:
  fixes f :: "'a \<Rightarrow> real"
  assumes "sum_list (map f xs) \<noteq> 0"
  shows "sum_list (map (\<lambda>t. f t / sum_list (map f xs) * 100) xs) = 100"
proof -
  have "sum_list (map (\<lambda>t. f t * (100 / sum_list (map f xs))) xs)
          = sum_list (map f xs) * (100 / sum_list (map f xs))"
    by (rule sum_list_mult_const)
  then show ?thesis using assms by (simp add: field_simps)
qed

lemma caps_positive_sum:
  fixes f :: "'a \<Rightarrow> real"
  assumes "xs \<noteq> []" "\<forall>t\<in>set xs. 0 < f t"
  shows "0 < sum_list (map f xs)"
proof (cases xs)
  case Nil
  with assms show ?thesis by simp
next
  case (Cons a ys)
  have "0 \<le> sum_list (map f ys)"
    using assms(2) Cons by (intro sum_list_nonneg) (auto simp: less_imp_le)
  moreover have "0 < f a" using assms(2) Cons by simp
  ultimately show ?thesis using Cons by simp
qed

lemma cap_le_sum:
  fixes f :: "'a \<Rightarrow> real"
  assumes "\<forall>t\<in>set xs. 0 < f t" "t \<in> set xs"
  shows "f t \<le> sum_list (map f xs)"
  using assms
proof (induction xs)
  case Nil
  then show ?case by simp
next
  case (Cons a xs)
  have nn: "0 \<le> sum_list (map f xs)"
    using Cons.prems(1) by (intro sum_list_nonneg) (auto simp: less_imp_le)
  show ?case
  proof (cases "t = a")
    case True
    then show ?thesis using nn by simp
  next
    case False
    then have "f t \<le> sum_list (map f xs)" using Cons by simp
    moreover have "0 < f a" using Cons.prems(1) by simp
    ultimately show ?thesis by simp
  qed
qed

lemma sum_list_error:
  fixes f g :: "'a \<Rightarrow> real"
  assumes "\<forall>t\<in>set xs. \<bar>f t - g t\<bar> \<le> e"
  shows "\<bar>sum_list (map f xs) - sum_list (map g xs)\<bar> \<le> real (length xs) * e"
  using assms
proof (induction xs)
  case Nil
  then show ?case by simp
next
  case (Cons a xs)
  have a: "\<bar>f a - g a\<bar> \<le> e" using Cons.prems by simp
  have r: "\<bar>sum_list (map f xs) - sum_list (map g xs)\<bar> \<le> real (length xs) * e"
    using Cons by simp
  have "real (length (a # xs)) * e = e + real (length xs) * e" by (simp add: algebra_simps)
  then show ?case using a r by simp
qed

lemma toDouble_overflow:
  assumes "2 powi 1024 \<le> x"
  shows "toDouble x = PosInfinity"
proof -
  have x1: "1 \<le> \<bar>x\<bar>"
  proof -
    have "(2 powi 0 :: real) \<le> 2 powi 1024" by (rule pow2_mono) simp
    then show ?thesis using assms by simp
  qed
  then have p0: "2 powi 0 \<le> \<bar>x\<bar>" by simp
  have e: "exponent x = exponent_up 1024 0 \<bar>x\<bar>" using x1 by (simp add: exponent_def)
  have "\<not> exponent x < 1024"
  proof
    assume lt: "exponent x < 1024"
    then have "\<bar>x\<bar> < 2 powi (exponent x + 1)"
      using exponent_up_spec [OF p0, of 1024] unfolding e by simp
    moreover have "(2 powi (exponent x + 1) :: real) \<le> 2 powi 1024"
      using lt by (intro pow2_mono) simp
    ultimately show False using assms by linarith
  qed
  then have "exponent x = 1024" using exponent_range [of x] by simp
  moreover have "2 powi (- 1022) \<le> x"
  proof -
    have "(2 powi (- 1022) :: real) \<le> 2 powi 1024" by (rule pow2_mono) simp
    then show ?thesis using assms by linarith
  qed
  ultimately have "2 powi 1024 \<le> rounded x" using rounded_lower [of x] by simp
  then show ?thesis by (simp add: toDouble_def)
qed

lemma rounded_eval:
  assumes "2 powi e \<le> x" "x < 2 powi (e + 1)" "- 1022 \<le> e" "e \<le> 1023"
  shows "rounded x = of_int (round_half_even (x / 2 powi (e - 52))) * 2 powi (e - 52)"
proof -
  have "(0 :: real) < 2 powi e" by simp
  then have "0 \<le> x" using assms(1) by linarith
  then have "exponent x = e" using assms by (intro exponent_unique) simp_all
  then show ?thesis by (simp add: rounded_def)
qed


lemma tolerance_bound:
  assumes "n < (2 :: nat) ^ 32"
  shows "2 * real n * 2 powi (- 53) \<le> (1 / 2 :: real)"
    "1 / 200 + 802 * 2 powi (- 53) + 102 * 2 powi (- 1075) + 200 * (2 * real n * 2 powi (- 53))
     \<le> (1 / 200 + real (n + 2) / 2 ^ 44 :: real)"
proof -
  have u: "(2 powi (- 53) :: real) = 1 / 2 ^ 53" by (simp add: power_int_minus field_simps)
  have n: "real n \<le> 2 ^ 32" using assms by (simp flip: of_nat_less_iff)
  then show "2 * real n * 2 powi (- 53) \<le> (1 / 2 :: real)" unfolding u by simp
  have "102 * (2 powi (- 1075) :: real) \<le> 102 * 2 powi (- 53)"
    using unit_roundoff_small(2) by simp
  moreover have "0 \<le> real n" by simp
  ultimately show "1 / 200 + 802 * 2 powi (- 53) + 102 * 2 powi (- 1075)
      + 200 * (2 * real n * 2 powi (- 53)) \<le> (1 / 200 + real (n + 2) / 2 ^ 44 :: real)"
    unfolding u by (simp add: field_simps)
qed

lemma uneven_dominance:
  "marketCapTotal uneven_batch = Finite 160"
  "calculateDominanceIndex uneven_batch
     = [(''SOL'', Finite (8089590830664253 / 562949953421312)),
        (''BTC'', Finite (753209445491671 / 8796093022208))]"
  "toDouble 14.37 = Finite (8089590830664253 / 562949953421312)"
  "toDouble 85.63 = Finite (753209445491671 / 8796093022208)"
  "toDouble 14.38 = Finite (8095220330198467 / 562949953421312)"
  "toDouble 23 = Finite 23" "toDouble 137 = Finite 137"
proof -
  have t1: "toDouble (0 + 23) = Finite (23)"
    using toDouble_eval [of "0 + 23" 4] by (simp add: round_half_even_def)
  have t2: "toDouble (23 + 137) = Finite (160)"
    using toDouble_eval [of "23 + 137" 7] by (simp add: round_half_even_def)
  have q0: "toDouble (23 / 160) = Finite (2589569785738035 / 18014398509481984)"
    using toDouble_eval [of "23 / 160" "- 3"] by (simp add: round_half_even_def)
  have m0: "toDouble (2589569785738035 / 18014398509481984 * 100) = Finite (8092405580431359 / 562949953421312)"
    using toDouble_eval [of "2589569785738035 / 18014398509481984 * 100" 3] by (simp add: round_half_even_def)
  have f0: "toDouble (1437 / 100) = Finite (8089590830664253 / 562949953421312)"
    using toDouble_eval [of "1437 / 100" 3] by (simp add: round_half_even_def)
  have q1: "toDouble (137 / 160) = Finite (3856207180935987 / 4503599627370496)"
    using toDouble_eval [of "137 / 160" "- 1"] by (simp add: round_half_even_def)
  have m1: "toDouble (3856207180935987 / 4503599627370496 * 100) = Finite (685 / 8)"
    using toDouble_eval [of "3856207180935987 / 4503599627370496 * 100" 6] by (simp add: round_half_even_def)
  have f1: "toDouble (8563 / 100) = Finite (753209445491671 / 8796093022208)"
    using toDouble_eval [of "8563 / 100" 6] by (simp add: round_half_even_def)
  have g: "toDouble (1438 / 100) = Finite (8095220330198467 / 562949953421312)"
    using toDouble_eval [of "1438 / 100" 3] by (simp add: round_half_even_def)
  have c0: "toDouble 23 = Finite 23"
    using toDouble_eval [of 23 4] by (simp add: round_half_even_def)
  have c1: "toDouble 137 = Finite 137"
    using toDouble_eval [of 137 7] by (simp add: round_half_even_def)
  note steps = t1 [simplified] t2 [simplified] q0 [simplified] m0 [simplified] f0 [simplified]
    q1 [simplified] m1 [simplified] f1 [simplified]
  show "marketCapTotal uneven_batch = Finite 160"
    by (simp add: marketCapTotal_def uneven_batch_def sample_SOL_def sample_BTC_def
        or_number_def or_optional_def steps)
  show "calculateDominanceIndex uneven_batch
     = [(''SOL'', Finite (8089590830664253 / 562949953421312)),
        (''BTC'', Finite (753209445491671 / 8796093022208))]"
    by (simp add: calculateDominanceIndex_def marketCapTotal_def uneven_batch_def
        sample_SOL_def sample_BTC_def or_number_def or_optional_def
        Number_toFixed2_def toFixed2_def steps)
  show "toDouble 14.37 = Finite (8089590830664253 / 562949953421312)" using f0 by simp
  show "toDouble 85.63 = Finite (753209445491671 / 8796093022208)" using f1 by simp
  show "toDouble 14.38 = Finite (8095220330198467 / 562949953421312)" using g by simp
  show "toDouble 23 = Finite 23" by (rule c0)
  show "toDouble 137 = Finite 137" by (rule c1)
qed

lemma overflow_dominance:
  "toDouble (2 powi 1023) = Finite (2 powi 1023)"
  "marketCapTotal overflow_batch = PosInfinity"
  "calculateDominanceIndex overflow_batch = [(''SOL'', Finite 0), (''BTC'', Finite 0)]"
proof -
  have r: "rounded (2 powi 1023) = 2 powi 1023"
    using rounded_eval [of 1023 "2 powi 1023"] by (simp add: round_half_even_def)
  have lt: "\<not> (2 powi 1024 :: real) \<le> 2 powi 1023"
    using pow2_less_imp [of 1024 1023] by simp
  have neg: "\<not> (2 powi 1023 :: real) \<le> - (2 powi 1024)"
  proof -
    have "(0 :: real) < 2 powi 1023" "(0 :: real) < 2 powi 1024" by simp_all
    then show ?thesis by linarith
  qed
  show t1: "toDouble (2 powi 1023) = Finite (2 powi 1023)"
    unfolding toDouble_def r using lt neg by simp
  have "(2 powi 1024 :: real) = 2 powi (1023 + 1)" by simp
  also have "\<dots> = 2 powi 1023 * 2 powi 1" by (rule power_int_add) simp
  finally have "(2 powi 1024 :: real) \<le> 2 powi 1023 + 2 powi 1023" by simp
  then have t2: "toDouble (2 powi 1023 + 2 powi 1023) = PosInfinity" by (rule toDouble_overflow)
  define big :: real where "big = 2 powi 1023"
  have nz: "big \<noteq> 0" by (simp add: big_def)
  have b1: "toDouble (0 + big) = Finite big" using t1 by (simp add: big_def)
  have b2: "toDouble (big + big) = PosInfinity" using t2 by (simp add: big_def)
  have ob: "overflow_batch = [sample_SOL\<lparr>marketCap := Some big\<rparr>,
                              sample_BTC\<lparr>marketCap := Some big\<rparr>]"
    by (simp add: overflow_batch_def big_def)
  show tot: "marketCapTotal overflow_batch = PosInfinity"
    unfolding marketCapTotal_def ob
    using nz by (simp add: sample_SOL_def sample_BTC_def or_optional_def or_number_def
        b1 [simplified] b2 [simplified])
  show "calculateDominanceIndex overflow_batch = [(''SOL'', Finite 0), (''BTC'', Finite 0)]"
    unfolding calculateDominanceIndex_def tot Let_def
    unfolding ob
    using nz by (simp add: sample_SOL_def sample_BTC_def Number_toFixed2_def toFixed2_def
        toDouble_zero)
qed

text \<open>
  Claim C5. Let the batch be non-empty, with unique symbols and fewer than \<open>2 ^ 32\<close> records
  (it is an array), let every market cap be a positive double, and let the total that the
  code adds up be finite. Then the dominance index lists the symbols in batch order, each
  with a finite value: the double nearest to a decimal of two places \<open>k / 100\<close>, within
  \<open>0.005 + (n + 2) / 2 ^ 44\<close> of the exact share, cap / (sum of the caps) * 100, where \<open>n\<close> is
  the number of records; and the values add up to 100 within \<open>n\<close> times that tolerance.
  For any batch, the keys of the index are the symbols of the records that have a
  (non-zero) market cap: a symbol without one is left out.
\<close>

theorem calculateDominanceIndex_shares:
  "(marketData \<noteq> [] \<and> length marketData < 2 ^ 32 \<and> distinct (map symbol marketData)
      \<and> (\<forall>t\<in>set marketData. \<exists>c. marketCap t = Some c \<and> 0 < c \<and> toDouble c = Finite c)
      \<and> (\<exists>x. marketCapTotal marketData = Finite x) \<longrightarrow>
     (let total = sum_list (map (\<lambda>t. or_optional (marketCap t) 0) marketData);
          share = (\<lambda>t. or_optional (marketCap t) 0 / total * 100);
          tolerance = 1 / 200 + real (length marketData + 2) / 2 ^ 44
      in \<exists>v. calculateDominanceIndex marketData
                = map (\<lambda>t. (symbol t, Finite (v t))) marketData
            \<and> (\<forall>t\<in>set marketData.
                  (\<exists>k\<ge>0. v t = rounded (of_int k / 100)) \<and> \<bar>v t - share t\<bar> \<le> tolerance)
            \<and> \<bar>sum_list (map v marketData) - 100\<bar> \<le> real (length marketData) * tolerance))
   \<and> (s \<in> fst ` set (calculateDominanceIndex marketData) \<longleftrightarrow>
        (\<exists>t\<in>set marketData. symbol t = s \<and> (\<exists>c. marketCap t = Some c \<and> c \<noteq> 0)))"
proof (intro conjI impI)
  have "fst ` set (calculateDominanceIndex marketData)
        = symbol ` {t \<in> set marketData. \<exists>c. marketCap t = Some c \<and> c \<noteq> 0}"
    unfolding calculateDominanceIndex_def Let_def by (simp add: dominance_fold_keys)
  then have "s \<in> fst ` set (calculateDominanceIndex marketData) \<longleftrightarrow>
        s \<in> symbol ` {t \<in> set marketData. \<exists>c. marketCap t = Some c \<and> c \<noteq> 0}"
    by (rule arg_cong)
  also have "\<dots> \<longleftrightarrow>
        (\<exists>t\<in>set marketData. symbol t = s \<and> (\<exists>c. marketCap t = Some c \<and> c \<noteq> 0))"
    by blast
  finally show "s \<in> fst ` set (calculateDominanceIndex marketData) \<longleftrightarrow>
        (\<exists>t\<in>set marketData. symbol t = s \<and> (\<exists>c. marketCap t = Some c \<and> c \<noteq> 0))" .
next
  let ?cap = "\<lambda>t. or_optional (marketCap t) 0"
  let ?T = "sum_list (map ?cap marketData)"
  let ?share = "\<lambda>t. ?cap t / ?T * 100"
  let ?n = "length marketData"
  let ?tol = "1 / 200 + real (?n + 2) / 2 ^ 44 :: real"
  let ?h = "2 * real ?n * 2 powi (- 53) :: real"
  assume h: "marketData \<noteq> [] \<and> length marketData < 2 ^ 32 \<and> distinct (map symbol marketData)
      \<and> (\<forall>t\<in>set marketData. \<exists>c. marketCap t = Some c \<and> 0 < c \<and> toDouble c = Finite c)
      \<and> (\<exists>x. marketCapTotal marketData = Finite x)"
  then obtain tot where tot: "marketCapTotal marketData = Finite tot" by blast
  have caps: "\<forall>t\<in>set marketData. \<exists>c. marketCap t = Some c \<and> 0 < c \<and> toDouble c = Finite c"
    using h by blast
  have pos: "\<forall>t\<in>set marketData. 0 < ?cap t"
    using caps by (fastforce simp add: or_optional_def or_number_def)
  have nz: "\<forall>t\<in>set marketData. \<exists>c. marketCap t = Some c \<and> c \<noteq> 0" using caps by fastforce
  have Tpos: "0 < ?T" using h pos by (intro caps_positive_sum) auto
  have hb: "?h \<le> 1 / 2" using h by (intro tolerance_bound(1)) simp
  have h0: "0 \<le> ?h" by simp
  have "\<bar>tot - (0 + ?T)\<bar> \<le> 2 * real (0 + ?n) * 2 powi (- 53) * (0 + ?T)"
  proof (rule total_error [OF caps])
    show "foldl (\<lambda>sum token. js_add sum (Finite (or_optional (marketCap token) 0)))
            (Finite 0) marketData = Finite tot"
      using tot by (simp add: marketCapTotal_def)
    show "2 * real (0 + ?n) * 2 powi (- 53) \<le> (1 :: real)" using hb by simp
  qed (simp_all add: on_grid_zero)
  then have te: "\<bar>tot - ?T\<bar> \<le> ?h * ?T" by simp
  define v where "v = (\<lambda>t :: MarketRecord. case Number_toFixed2
        (js_mul (js_div (Finite (?cap t)) (Finite tot)) (Finite 100)) of Finite y \<Rightarrow> y | _ \<Rightarrow> 0)"
  have item: "Number_toFixed2 (js_mul (js_div (Finite (?cap t)) (Finite tot)) (Finite 100))
                = Finite (v t)
              \<and> (\<exists>k\<ge>0. v t = rounded (of_int k / 100)) \<and> \<bar>v t - ?share t\<bar> \<le> ?tol"
    if t: "t \<in> set marketData" for t
  proof -
    have c0: "0 < ?cap t" using pos t by blast
    have cT: "?cap t \<le> ?T" using pos t by (rule cap_le_sum)
    from share_error [OF Tpos c0 cT te h0 hb]
    obtain k w where kw: "0 \<le> k" "w = rounded (of_int k / 100)"
      "Number_toFixed2 (js_mul (js_div (Finite (?cap t)) (Finite tot)) (Finite 100)) = Finite w"
      "\<bar>w - ?share t\<bar> \<le> 1 / 200 + 802 * 2 powi (- 53) + 102 * 2 powi (- 1075) + 200 * ?h"
      by blast
    have vw: "v t = w" unfolding v_def kw(3) by simp
    have "\<bar>w - ?share t\<bar> \<le> ?tol"
      using kw(4) tolerance_bound(2) [of ?n] h by linarith
    then show ?thesis using kw(1,2,3) unfolding vw by blast
  qed
  have "calculateDominanceIndex marketData
          = map (\<lambda>t. (symbol t, Number_toFixed2
                   (js_mul (js_div (Finite (?cap t)) (Finite tot)) (Finite 100)))) marketData"
    unfolding calculateDominanceIndex_def Let_def tot
    using dominance_fold_distinct [OF nz, of "[]" "Finite tot"] h by simp
  also have "\<dots> = map (\<lambda>t. (symbol t, Finite (v t))) marketData"
    using item by (intro map_cong) simp_all
  finally have eq: "calculateDominanceIndex marketData
          = map (\<lambda>t. (symbol t, Finite (v t))) marketData" .
  have each: "\<forall>t\<in>set marketData.
      (\<exists>k\<ge>0. v t = rounded (of_int k / 100)) \<and> \<bar>v t - ?share t\<bar> \<le> ?tol"
    using item by blast
  have "sum_list (map ?share marketData) = 100" using Tpos by (intro shares_sum) simp
  moreover have "\<bar>sum_list (map v marketData) - sum_list (map ?share marketData)\<bar>
      \<le> real ?n * ?tol"
    using each by (intro sum_list_error) blast
  ultimately have sum: "\<bar>sum_list (map v marketData) - 100\<bar> \<le> real ?n * ?tol" by simp
  show "let total = sum_list (map (\<lambda>t. or_optional (marketCap t) 0) marketData);
          share = (\<lambda>t. or_optional (marketCap t) 0 / total * 100);
          tolerance = 1 / 200 + real (length marketData + 2) / 2 ^ 44
      in \<exists>v. calculateDominanceIndex marketData
                = map (\<lambda>t. (symbol t, Finite (v t))) marketData
            \<and> (\<forall>t\<in>set marketData.
                  (\<exists>k\<ge>0. v t = rounded (of_int k / 100)) \<and> \<bar>v t - share t\<bar> \<le> tolerance)
            \<and> \<bar>sum_list (map v marketData) - 100\<bar> \<le> real (length marketData) * tolerance"
    unfolding Let_def using eq each sum by blast
qed

theorem calculateDominanceIndex_shares_witness:
  "uneven_batch \<noteq> [] \<and> length uneven_batch < 2 ^ 32 \<and> distinct (map symbol uneven_batch)
   \<and> map marketCap uneven_batch = [Some 23, Some 137]
   \<and> toDouble 23 = Finite 23 \<and> toDouble 137 = Finite 137
   \<and> marketCapTotal uneven_batch = Finite 160
   \<and> calculateDominanceIndex uneven_batch
        = [(''SOL'', Finite (rounded 14.37)), (''BTC'', Finite (rounded 85.63))]
   \<and> \<bar>rounded 14.37 - 23 / 160 * 100\<bar> \<le> 1 / 200 + 4 / 2 ^ 44
   \<and> \<bar>rounded 85.63 - 137 / 160 * 100\<bar> \<le> 1 / 200 + 4 / 2 ^ 44
   \<and> \<bar>rounded 14.37 + rounded 85.63 - 100\<bar> \<le> 2 * (1 / 200 + 4 / 2 ^ 44)
   \<and> ''SOL'' \<notin> fst ` set (calculateDominanceIndex [sample_SOL\<lparr>marketCap := None\<rparr>, sample_BTC])
   \<and> ''BTC'' \<in> fst ` set (calculateDominanceIndex [sample_SOL\<lparr>marketCap := None\<rparr>, sample_BTC])"
proof -
  let ?s = "sample_SOL\<lparr>marketCap := Some 23\<rparr>"
  let ?b = "sample_BTC\<lparr>marketCap := Some 137\<rparr>"
  have ub: "uneven_batch = [?s, ?b]" by (simp add: uneven_batch_def)
  have caps: "map marketCap uneven_batch = [Some 23, Some 137]"
    by (simp add: uneven_batch_def sample_SOL_def sample_BTC_def)
  have syms: "map symbol uneven_batch = [''SOL'', ''BTC'']"
    by (simp add: uneven_batch_def sample_SOL_def sample_BTC_def)
  have h: "uneven_batch \<noteq> [] \<and> length uneven_batch < 2 ^ 32
      \<and> distinct (map symbol uneven_batch)
      \<and> (\<forall>t\<in>set uneven_batch. \<exists>c. marketCap t = Some c \<and> 0 < c \<and> toDouble c = Finite c)
      \<and> (\<exists>x. marketCapTotal uneven_batch = Finite x)"
    using uneven_dominance(6,7)
    by (simp add: syms uneven_dominance(1)) (simp add: ub sample_SOL_def sample_BTC_def)
  have "let total = sum_list (map (\<lambda>t. or_optional (marketCap t) 0) uneven_batch);
          share = (\<lambda>t. or_optional (marketCap t) 0 / total * 100);
          tolerance = 1 / 200 + real (length uneven_batch + 2) / 2 ^ 44
      in \<exists>v. calculateDominanceIndex uneven_batch
                = map (\<lambda>t. (symbol t, Finite (v t))) uneven_batch
            \<and> (\<forall>t\<in>set uneven_batch.
                  (\<exists>k\<ge>0. v t = rounded (of_int k / 100)) \<and> \<bar>v t - share t\<bar> \<le> tolerance)
            \<and> \<bar>sum_list (map v uneven_batch) - 100\<bar> \<le> real (length uneven_batch) * tolerance"
    using calculateDominanceIndex_shares [of uneven_batch "''SOL''"] h by blast
  then obtain v where v:
    "calculateDominanceIndex uneven_batch = map (\<lambda>t. (symbol t, Finite (v t))) uneven_batch"
    "\<bar>v ?s - 23 / 160 * 100\<bar> \<le> 1 / 200 + 4 / 2 ^ 44"
    "\<bar>v ?b - 137 / 160 * 100\<bar> \<le> 1 / 200 + 4 / 2 ^ 44"
    "\<bar>v ?s + v ?b - 100\<bar> \<le> 2 * (1 / 200 + 4 / 2 ^ 44)"
    unfolding Let_def ub
    by (auto simp add: sample_SOL_def sample_BTC_def or_optional_def or_number_def)
  have ra: "rounded 14.37 = 8089590830664253 / 562949953421312"
    using uneven_dominance(3) by (simp add: toDouble_def split: if_splits)
  have rb: "rounded 85.63 = 753209445491671 / 8796093022208"
    using uneven_dominance(4) by (simp add: toDouble_def split: if_splits)
  have "map (\<lambda>t. (symbol t, Finite (v t))) uneven_batch
          = [(''SOL'', Finite (rounded 14.37)), (''BTC'', Finite (rounded 85.63))]"
    using v(1) unfolding uneven_dominance(2) ra rb by simp
  then have vs: "v ?s = rounded 14.37" "v ?b = rounded 85.63"
    unfolding ub by simp_all
  have k: "''SOL'' \<notin> fst ` set (calculateDominanceIndex [sample_SOL\<lparr>marketCap := None\<rparr>, sample_BTC])
      \<and> ''BTC'' \<in> fst ` set (calculateDominanceIndex [sample_SOL\<lparr>marketCap := None\<rparr>, sample_BTC])"
    using calculateDominanceIndex_shares
            [of "[sample_SOL\<lparr>marketCap := None\<rparr>, sample_BTC]" "''SOL''"]
          calculateDominanceIndex_shares
            [of "[sample_SOL\<lparr>marketCap := None\<rparr>, sample_BTC]" "''BTC''"]
    by (simp add: sample_SOL_def sample_BTC_def)
  have eq: "calculateDominanceIndex uneven_batch
        = [(''SOL'', Finite (rounded 14.37)), (''BTC'', Finite (rounded 85.63))]"
    unfolding uneven_dominance(2) ra rb by (rule refl)
  have len: "uneven_batch \<noteq> [] \<and> length uneven_batch < 2 ^ 32
      \<and> distinct (map symbol uneven_batch)"
    using h by blast
  show ?thesis
    using len caps uneven_dominance(1,6,7) eq v(2,3,4) k unfolding vs by blast
qed

text \<open>
  Claim C5 as the specification words it, with the share rounded to two places and no
  condition on the total, fails on two batches. With the caps 23 and 137 the share of SOL
  is exactly 14.375, which rounds to 14.38; in doubles \<open>23 / 160 * 100\<close> is
  14.374999999999998 and the index holds 14.37. With two caps of \<open>2 powi 1023\<close> the total
  overflows to \<open>Infinity\<close>, every value is 0 and the values add up to 0.
\<close>

theorem calculateDominanceIndex_counterexample:
  "calculateDominanceIndex uneven_batch = [(''SOL'', toDouble 14.37), (''BTC'', toDouble 85.63)]
   \<and> map marketCap uneven_batch = [Some 23, Some 137]
   \<and> toFixed2 (23 / (23 + 137) * 100) = 14.38
   \<and> toDouble 14.37 \<noteq> toDouble 14.38
   \<and> map marketCap overflow_batch = [Some (2 powi 1023), Some (2 powi 1023)]
   \<and> toDouble (2 powi 1023) = Finite (2 powi 1023)
   \<and> marketCapTotal overflow_batch = PosInfinity
   \<and> calculateDominanceIndex overflow_batch = [(''SOL'', Finite 0), (''BTC'', Finite 0)]"
proof (intro conjI)
  show "calculateDominanceIndex uneven_batch
          = [(''SOL'', toDouble 14.37), (''BTC'', toDouble 85.63)]"
    unfolding uneven_dominance(2,3,4) by (rule refl)
  show "map marketCap uneven_batch = [Some 23, Some 137]"
    by (simp add: uneven_batch_def sample_SOL_def sample_BTC_def)
  show "toFixed2 (23 / (23 + 137) * 100) = 14.38" by (simp add: toFixed2_def)
  show "toDouble 14.37 \<noteq> toDouble 14.38" unfolding uneven_dominance(3,5) by simp
  show "map marketCap overflow_batch = [Some (2 powi 1023), Some (2 powi 1023)]"
    by (simp add: overflow_batch_def sample_SOL_def sample_BTC_def)
  show "toDouble (2 powi 1023) = Finite (2 powi 1023)" by (rule overflow_dominance(1))
  show "marketCapTotal overflow_batch = PosInfinity" by (rule overflow_dominance(2))
  show "calculateDominanceIndex overflow_batch = [(''SOL'', Finite 0), (''BTC'', Finite 0)]"
    by (rule overflow_dominance(3))
qed

subsection \<open>The short-term trends\<close>

lemma more_than_60_percent: "(real n * 3 < real g * 5) = (3 * n < 5 * g)"
proof -
  have "(real n * 3 < real g * 5) = (real (3 * n) < real (5 * g))"
    by (simp add: mult.commute)
  also have "\<dots> = (3 * n < 5 * g)"
    by (rule of_nat_less_iff)
  finally show ?thesis .
qed

text \<open>
  Claim C8. For every batch, the short-term trend list contains "Broad market rally"
  exactly when more than 60 percent of the records have a 24h change above 5, and
  "Market-wide correction" exactly when more than 60 percent have a 24h change below -5;
  so the correction entry is there only if at least 60 percent of the batch fell below -5.
\<close>

theorem extractShortTermTrends_rally_correction:
  "(''Broad market rally'' \<in> set (extractShortTermTrends marketData) \<longleftrightarrow>
      100 * length (filter (\<lambda>t. percentChange24h t > 5) marketData) > 60 * length marketData)
   \<and> (''Market-wide correction'' \<in> set (extractShortTermTrends marketData) \<longleftrightarrow>
      100 * length (filter (\<lambda>t. percentChange24h t < - 5) marketData) > 60 * length marketData)
   \<and> (''Market-wide correction'' \<in> set (extractShortTermTrends marketData) \<longrightarrow>
      100 * length (filter (\<lambda>t. percentChange24h t < - 5) marketData) \<ge> 60 * length marketData)"
  by (simp add: extractShortTermTrends_def Let_def more_than_60_percent)

theorem extractShortTermTrends_rally_correction_witness:
  "''Market-wide correction'' \<in> set (extractShortTermTrends [sample_ETH, sample_ETH, sample_BTC])
   \<and> 100 * length (filter (\<lambda>t. percentChange24h t < - 5) [sample_ETH, sample_ETH, sample_BTC])
        \<ge> 60 * length [sample_ETH, sample_ETH, sample_BTC]
   \<and> ''Market-wide correction'' \<notin> set (extractShortTermTrends sample_batch)
   \<and> ''Broad market rally'' \<notin> set (extractShortTermTrends sample_batch)"
  using extractShortTermTrends_rally_correction [of "[sample_ETH, sample_ETH, sample_BTC]"]
    extractShortTermTrends_rally_correction [of sample_batch]
  by (simp add: sample_batch_def sample_SOL_def sample_BTC_def sample_ETH_def)

section \<open>Properties of the cache\<close>

lemma sample_sorted:
  "sort_key (\<lambda>t. - percentChange24h t) sample_batch = sample_batch"
  by (simp add: sample_batch_def sample_SOL_def sample_BTC_def sample_ETH_def)

lemma sample_overview:
  "generateMarketOverview sample_batch sample_sentiment
     = Inr (overview sample_analysis, sample_batch)"
  unfolding generateMarketOverview_def Let_def sample_sorted
  by (simp add: sample_batch_def sample_SOL_def sample_sentiment_def sample_analysis_def
      gt_optional_def toFixed2_text_def digit_char_def show_nat.simps Let_def)

lemma sample_signals: "generateTechnicalSignals sample_batch = technicalSignals sample_analysis"
proof -
  have b1: "toDouble (6 / 1) = Finite (6)"
    using toDouble_eval [of "6 / 1" 2] by (simp add: round_half_even_def)
  have b2: "toDouble (1 + 6) = Finite (7)"
    using toDouble_eval [of "1 + 6" 2] by (simp add: round_half_even_def)
  have b3: "toDouble (100 / (7)) = Finite (8042142191733029 / 562949953421312)"
    using toDouble_eval [of "100 / (7)" 3] by (simp add: round_half_even_def)
  have b4: "toDouble (100 + - (8042142191733029 / 562949953421312)) = Finite (6031606643799771 / 70368744177664)"
    using toDouble_eval [of "100 + - (8042142191733029 / 562949953421312)" 6] by (simp add: round_half_even_def)
  have d1: "toDouble (1 / 1) = Finite (1)"
    using toDouble_eval [of "1 / 1" 0] by (simp add: round_half_even_def)
  have d2: "toDouble (1 + 1) = Finite (2)"
    using toDouble_eval [of "1 + 1" 1] by (simp add: round_half_even_def)
  have d3: "toDouble (100 / (2)) = Finite (50)"
    using toDouble_eval [of "100 / (2)" 5] by (simp add: round_half_even_def)
  have d4: "toDouble (100 + - (50)) = Finite (50)"
    using toDouble_eval [of "100 + - (50)" 5] by (simp add: round_half_even_def)
  have c1: "toDouble (0 / 7) = Finite 0"
    using toDouble_zero by simp
  have c2: "toDouble (1 + 0) = Finite (1)"
    using toDouble_eval [of "1 + 0" 0] by (simp add: round_half_even_def)
  have c3: "toDouble (100 / (1)) = Finite (100)"
    using toDouble_eval [of "100 / (1)" 6] by (simp add: round_half_even_def)
  have c4: "toDouble (100 + - (100)) = Finite 0"
    using toDouble_zero by simp
  note steps = b1 [simplified] b2 [simplified] b3 [simplified] b4 [simplified]
    d1 [simplified] d2 [simplified] d3 [simplified] d4 [simplified]
    c1 [simplified] c2 [simplified] c3 [simplified] c4 [simplified]
  show ?thesis
    by (simp add: generateTechnicalSignals_def calculateTechnicalSentiment_def
        calculateIndicators_def calculateMACD_def calculateRSI_def analyzeMovingAverages_def
        sample_batch_def sample_SOL_def sample_BTC_def sample_ETH_def sample_analysis_def
        or_number_def or_optional_def Math_round_number_def Math_round_def js_sub_def steps)
qed

lemma sample_trends: "analyzeTrends sample_batch = trends sample_analysis"
  by (simp add: analyzeTrends_def extractShortTermTrends_def
      extractMediumTermTrends_def identifyEmergingTrends_def
      sample_batch_def sample_SOL_def sample_BTC_def sample_ETH_def sample_analysis_def
      or_number_def or_optional_def gt_optional_def
      lt_optional_def js_divide_def quotient_gt_def quotient_lt_def Let_def)

lemma sample_dominance:
  "calculateDominanceIndex sample_batch = dominanceIndex (metrics sample_analysis)"
proof -
  have t1: "toDouble (0 + 100) = Finite (100)"
    using toDouble_eval [of "0 + 100" 6] by (simp add: round_half_even_def)
  have t2: "toDouble (100 + 100) = Finite (200)"
    using toDouble_eval [of "100 + 100" 7] by (simp add: round_half_even_def)
  have t3: "toDouble (200 + 100) = Finite (300)"
    using toDouble_eval [of "200 + 100" 8] by (simp add: round_half_even_def)
  have q: "toDouble (100 / 300) = Finite (6004799503160661 / 18014398509481984)"
    using toDouble_eval [of "100 / 300" "- 2"] by (simp add: round_half_even_def)
  have sh: "toDouble (6004799503160661 / 18014398509481984 * 100) = Finite (2345624805922133 / 70368744177664)"
    using toDouble_eval [of "6004799503160661 / 18014398509481984 * 100" 5] by (simp add: round_half_even_def)
  note steps = t1 [simplified] t2 [simplified] t3 [simplified] q [simplified] sh [simplified]
  show ?thesis
    by (simp add: calculateDominanceIndex_def marketCapTotal_def
        sample_batch_def sample_SOL_def sample_BTC_def sample_ETH_def sample_analysis_def
        or_number_def or_optional_def Number_toFixed2_def toFixed2_def steps)
qed

lemma sample_recomputation:
  "generateMarketAnalysis (Inr (sample_batch, sample_sentiment)) = Inr sample_analysis"
  unfolding generateMarketAnalysis_def Let_def
  by (simp add: sample_overview sample_signals sample_trends sample_dominance
        getOnChainMetrics_def)
     (simp add: sample_sentiment_def sample_analysis_def)

lemma empty_batch_recomputation:
  "generateMarketAnalysis (Inr ([], s)) = Inl TypeError"
  by (simp add: generateMarketAnalysis_def generateMarketOverview_def Let_def)

lemma getMarketAnalysis_fresh:
  "cachedAnalysis st = Some a \<Longrightarrow> lastUpdate st = Some updated \<Longrightarrow>
   now - updated \<le> 5 * 60 * 1000 \<Longrightarrow>
   getMarketAnalysis st now fetched done = \<lparr>returned = Inr (Some a), cache = st, fetches = 0\<rparr>"
  by (simp add: getMarketAnalysis_def shouldRefreshCache_def CACHE_DURATION_def)

lemma shouldRefreshCache_iff:
  "shouldRefreshCache st now \<longleftrightarrow>
     cachedAnalysis st = None \<or> lastUpdate st = None
     \<or> (\<exists>updated. lastUpdate st = Some updated \<and> now - updated > 5 * 60 * 1000)"
  by (auto simp add: shouldRefreshCache_def CACHE_DURATION_def split: option.splits)

lemma getMarketAnalysis_stale_ok:
  "shouldRefreshCache st now \<Longrightarrow> generateMarketAnalysis fetched = Inr a \<Longrightarrow>
   getMarketAnalysis st now fetched done
     = \<lparr>returned = Inr (Some a),
        cache = \<lparr>lastUpdate = Some done, cachedAnalysis = Some a\<rparr>, fetches = 1\<rparr>"
  by (simp add: getMarketAnalysis_def Let_def)

lemma getMarketAnalysis_stale_failed:
  "shouldRefreshCache st now \<Longrightarrow> generateMarketAnalysis fetched = Inl e \<Longrightarrow>
   getMarketAnalysis st now fetched done = \<lparr>returned = Inl e, cache = st, fetches = 1\<rparr>"
  by (simp add: getMarketAnalysis_def Let_def)

lemma getMarketAnalysis_stale_fetches:
  "shouldRefreshCache st now \<Longrightarrow> fetches (getMarketAnalysis st now fetched done) = 1"
  by (simp add: getMarketAnalysis_def Let_def split: sum.splits)

lemma getMarketAnalysis_returned:
  assumes "returned (getMarketAnalysis st now fetched done) = Inr r"
  shows "r = cachedAnalysis (cache (getMarketAnalysis st now fetched done))
   \<and> (\<exists>a t. r = Some a \<and> lastUpdate (cache (getMarketAnalysis st now fetched done)) = Some t)"
proof (cases "shouldRefreshCache st now")
  case True
  show ?thesis
  proof (cases "generateMarketAnalysis fetched")
    case (Inl e)
    with True assms show ?thesis by (simp add: getMarketAnalysis_stale_failed)
  next
    case (Inr a)
    with True assms show ?thesis by (auto simp add: getMarketAnalysis_stale_ok)
  qed
next
  case False
  then obtain a t where "cachedAnalysis st = Some a" "lastUpdate st = Some t"
    by (auto simp add: shouldRefreshCache_def split: option.splits)
  with False assms show ?thesis by (auto simp add: getMarketAnalysis_def)
qed

text \<open>
  Claim C1. A call to \<open>getMarketAnalysis\<close> that finds a snapshot whose timestamp is at
  most 5 minutes old returns that snapshot, leaves both fields as they are and fetches
  nothing. A call that finds no snapshot, no timestamp, or a timestamp more than 5 minutes
  old recomputes exactly once, and when the recomputation succeeds it returns the new
  snapshot with both fields overwritten, the timestamp by the clock read after the
  recomputation. The call never returns \<open>null\<close>. A second call made while the snapshot the
  first one returned is still fresh (in particular with no clock advance in between)
  returns the same snapshot and fetches nothing, so the two calls fetch at most once.
\<close>

theorem getMarketAnalysis_cache:
  "(cachedAnalysis st = Some a \<and> lastUpdate st = Some updated \<and> now - updated \<le> 5 * 60 * 1000
      \<longrightarrow> getMarketAnalysis st now fetched done
            = \<lparr>returned = Inr (Some a), cache = st, fetches = 0\<rparr>)
   \<and> (cachedAnalysis st = None \<or> lastUpdate st = None
        \<or> (\<exists>updated. lastUpdate st = Some updated \<and> now - updated > 5 * 60 * 1000)
      \<longrightarrow> fetches (getMarketAnalysis st now fetched done) = 1
          \<and> (\<forall>a'. generateMarketAnalysis fetched = Inr a' \<longrightarrow>
                 getMarketAnalysis st now fetched done
                   = \<lparr>returned = Inr (Some a'),
                      cache = \<lparr>lastUpdate = Some done, cachedAnalysis = Some a'\<rparr>,
                      fetches = 1\<rparr>))
   \<and> returned (getMarketAnalysis st now fetched done) \<noteq> Inr None
   \<and> (returned (getMarketAnalysis st now fetched done) = Inr (Some a1)
        \<and> lastUpdate (cache (getMarketAnalysis st now fetched done)) = Some t
        \<and> now2 - t \<le> 5 * 60 * 1000
      \<longrightarrow> getMarketAnalysis (cache (getMarketAnalysis st now fetched done)) now2 fetched2 done2
            = \<lparr>returned = Inr (Some a1),
               cache = cache (getMarketAnalysis st now fetched done), fetches = 0\<rparr>
          \<and> fetches (getMarketAnalysis st now fetched done)
              + fetches (getMarketAnalysis (cache (getMarketAnalysis st now fetched done))
                           now2 fetched2 done2) \<le> 1)"
proof (intro conjI impI)
  assume "cachedAnalysis st = Some a \<and> lastUpdate st = Some updated \<and> now - updated \<le> 5 * 60 * 1000"
  then show "getMarketAnalysis st now fetched done
            = \<lparr>returned = Inr (Some a), cache = st, fetches = 0\<rparr>"
    by (simp add: getMarketAnalysis_fresh)
next
  assume "cachedAnalysis st = None \<or> lastUpdate st = None
        \<or> (\<exists>updated. lastUpdate st = Some updated \<and> now - updated > 5 * 60 * 1000)"
  then have stale: "shouldRefreshCache st now" by (simp only: shouldRefreshCache_iff)
  then show "fetches (getMarketAnalysis st now fetched done) = 1"
    by (rule getMarketAnalysis_stale_fetches)
  show "\<forall>a'. generateMarketAnalysis fetched = Inr a' \<longrightarrow>
                 getMarketAnalysis st now fetched done
                   = \<lparr>returned = Inr (Some a'),
                      cache = \<lparr>lastUpdate = Some done, cachedAnalysis = Some a'\<rparr>,
                      fetches = 1\<rparr>"
    using stale by (simp add: getMarketAnalysis_stale_ok)
next
  show "returned (getMarketAnalysis st now fetched done) \<noteq> Inr None"
    using getMarketAnalysis_returned [of st now fetched "done" None] by auto
next
  let ?r = "getMarketAnalysis st now fetched done"
  assume h: "returned ?r = Inr (Some a1) \<and> lastUpdate (cache ?r) = Some t
        \<and> now2 - t \<le> 5 * 60 * 1000"
  then have c: "cachedAnalysis (cache ?r) = Some a1"
    using getMarketAnalysis_returned [of st now fetched "done" "Some a1"] by simp
  have second: "getMarketAnalysis (cache ?r) now2 fetched2 done2
            = \<lparr>returned = Inr (Some a1), cache = cache ?r, fetches = 0\<rparr>"
    using c h by (simp add: getMarketAnalysis_fresh)
  have "fetches ?r \<le> 1"
    by (simp add: getMarketAnalysis_def Let_def split: sum.splits)
  then have "fetches ?r + fetches (getMarketAnalysis (cache ?r) now2 fetched2 done2) \<le> 1"
    by (simp add: second)
  then show "fetches ?r + fetches (getMarketAnalysis (cache ?r) now2 fetched2 done2) \<le> 1" .
  from second show "getMarketAnalysis (cache ?r) now2 fetched2 done2
            = \<lparr>returned = Inr (Some a1), cache = cache ?r, fetches = 0\<rparr>" .
qed

theorem getMarketAnalysis_cache_witness:
  "getMarketAnalysis sample_cache 301000 (Inl (ProviderError ''unreachable'')) 301000
     = \<lparr>returned = Inr (Some sample_analysis), cache = sample_cache, fetches = 0\<rparr>
   \<and> getMarketAnalysis sample_cache 301001 (Inr (sample_batch, sample_sentiment)) 301500
     = \<lparr>returned = Inr (Some sample_analysis),
        cache = \<lparr>lastUpdate = Some 301500, cachedAnalysis = Some sample_analysis\<rparr>,
        fetches = 1\<rparr>
   \<and> getMarketAnalysis empty_cache 7 (Inr (sample_batch, sample_sentiment)) 40
     = \<lparr>returned = Inr (Some sample_analysis),
        cache = \<lparr>lastUpdate = Some 40, cachedAnalysis = Some sample_analysis\<rparr>,
        fetches = 1\<rparr>
   \<and> getMarketAnalysis \<lparr>lastUpdate = Some 40, cachedAnalysis = Some sample_analysis\<rparr>
        40 (Inl (ProviderError ''unreachable'')) 40
     = \<lparr>returned = Inr (Some sample_analysis),
        cache = \<lparr>lastUpdate = Some 40, cachedAnalysis = Some sample_analysis\<rparr>,
        fetches = 0\<rparr>"
proof -
  let ?down = "Inl (ProviderError ''unreachable'') :: error + (MarketRecord list \<times> MarketSentiment)"
  let ?up = "Inr (sample_batch, sample_sentiment) :: error + (MarketRecord list \<times> MarketSentiment)"
  let ?filled = "\<lparr>lastUpdate = Some 40, cachedAnalysis = Some sample_analysis\<rparr>"
  have w1: "getMarketAnalysis sample_cache 301000 ?down 301000
     = \<lparr>returned = Inr (Some sample_analysis), cache = sample_cache, fetches = 0\<rparr>"
    using getMarketAnalysis_cache
            [where st = sample_cache and a = sample_analysis and updated = 1000
               and now = 301000 and fetched = ?down and ?done = 301000
               and ?a1.0 = sample_analysis and t = 1000 and ?now2.0 = 301000
               and ?fetched2.0 = ?down and ?done2.0 = 301000]
    by (simp add: sample_cache_def)
  have w2: "getMarketAnalysis sample_cache 301001 ?up 301500
     = \<lparr>returned = Inr (Some sample_analysis),
        cache = \<lparr>lastUpdate = Some 301500, cachedAnalysis = Some sample_analysis\<rparr>,
        fetches = 1\<rparr>"
    using getMarketAnalysis_cache
            [where st = sample_cache and a = sample_analysis and updated = 1000
               and now = 301001 and fetched = ?up and ?done = 301500
               and ?a1.0 = sample_analysis and t = 301500 and ?now2.0 = 301500
               and ?fetched2.0 = ?down and ?done2.0 = 301500]
          sample_recomputation
    by (simp add: sample_cache_def)
  have w3: "getMarketAnalysis empty_cache 7 ?up 40
     = \<lparr>returned = Inr (Some sample_analysis), cache = ?filled, fetches = 1\<rparr>"
    using getMarketAnalysis_cache
            [where st = empty_cache and a = sample_analysis and updated = 0
               and now = 7 and fetched = ?up and ?done = 40
               and ?a1.0 = sample_analysis and t = 40 and ?now2.0 = 40
               and ?fetched2.0 = ?down and ?done2.0 = 40]
          sample_recomputation
    by (simp add: empty_cache_def)
  have w4: "getMarketAnalysis ?filled 40 ?down 40
     = \<lparr>returned = Inr (Some sample_analysis), cache = ?filled, fetches = 0\<rparr>"
    using getMarketAnalysis_cache
            [where st = empty_cache and a = sample_analysis and updated = 0
               and now = 7 and fetched = ?up and ?done = 40
               and ?a1.0 = sample_analysis and t = 40 and ?now2.0 = 40
               and ?fetched2.0 = ?down and ?done2.0 = 40]
    unfolding w3 by simp
  from w1 w2 w3 w4 show ?thesis by simp
qed

text \<open>
  Claim C2. When the recomputation fails, the call rejects with that very error (a
  provider error comes through \<open>generateMarketAnalysis\<close> as it is), after one fetch and no
  more, and both cache fields are as they were before the call; so a later call finds the
  cache as stale as before and recomputes again.
\<close>

theorem getMarketAnalysis_failure:
  "(shouldRefreshCache st now \<longrightarrow>
      getMarketAnalysis st now (Inl e) done = \<lparr>returned = Inl e, cache = st, fetches = 1\<rparr>)
   \<and> (shouldRefreshCache st now \<and> generateMarketAnalysis fetched = Inl e \<longrightarrow>
      getMarketAnalysis st now fetched done = \<lparr>returned = Inl e, cache = st, fetches = 1\<rparr>)
   \<and> (shouldRefreshCache st now \<and> now \<le> later \<longrightarrow>
      shouldRefreshCache st later
      \<and> fetches (getMarketAnalysis st later fetched2 done2) = 1)"
proof (intro conjI impI)
  assume "shouldRefreshCache st now"
  moreover have "generateMarketAnalysis (Inl e) = Inl e"
    by (simp add: generateMarketAnalysis_def)
  ultimately show "getMarketAnalysis st now (Inl e) done
      = \<lparr>returned = Inl e, cache = st, fetches = 1\<rparr>"
    by (rule getMarketAnalysis_stale_failed)
next
  assume "shouldRefreshCache st now \<and> generateMarketAnalysis fetched = Inl e"
  then show "getMarketAnalysis st now fetched done = \<lparr>returned = Inl e, cache = st, fetches = 1\<rparr>"
    by (simp add: getMarketAnalysis_stale_failed)
next
  assume h: "shouldRefreshCache st now \<and> now \<le> later"
  then show later: "shouldRefreshCache st later"
    by (auto simp add: shouldRefreshCache_def split: option.splits)
  then show "fetches (getMarketAnalysis st later fetched2 done2) = 1"
    by (rule getMarketAnalysis_stale_fetches)
qed

theorem getMarketAnalysis_failure_witness:
  "shouldRefreshCache sample_cache 400000
   \<and> getMarketAnalysis sample_cache 400000 (Inl (ProviderError ''timeout'')) 400900
     = \<lparr>returned = Inl (ProviderError ''timeout''), cache = sample_cache, fetches = 1\<rparr>
   \<and> generateMarketAnalysis (Inr ([], sample_sentiment)) = Inl TypeError
   \<and> getMarketAnalysis sample_cache 400000 (Inr ([], sample_sentiment)) 400900
     = \<lparr>returned = Inl TypeError, cache = sample_cache, fetches = 1\<rparr>
   \<and> shouldRefreshCache sample_cache 400901
   \<and> fetches (getMarketAnalysis sample_cache 400901 (Inr (sample_batch, sample_sentiment)) 401000)
     = 1"
proof -
  have stale: "shouldRefreshCache sample_cache 400000"
    by (simp add: shouldRefreshCache_def sample_cache_def CACHE_DURATION_def)
  show ?thesis
    using stale empty_batch_recomputation [of sample_sentiment]
      getMarketAnalysis_failure
        [where st = sample_cache and now = 400000 and e = "ProviderError ''timeout''"
           and ?done = 400900 and fetched = "Inl (ProviderError ''timeout'')" and later = 400901
           and ?fetched2.0 = "Inr (sample_batch, sample_sentiment)" and ?done2.0 = 401000]
      getMarketAnalysis_failure
        [where st = sample_cache and now = 400000 and e = TypeError
           and ?done = 400900 and fetched = "Inr ([], sample_sentiment)" and later = 400901
           and ?fetched2.0 = "Inr (sample_batch, sample_sentiment)" and ?done2.0 = 401000]
    by (simp add: generateMarketAnalysis_def)
qed

lemma analyzePriceTrend_lookup:
  "returned (getMarketAnalysis st now fetched done) = Inr (Some analysis) \<Longrightarrow>
   returned (analyzePriceTrend st now fetched done token)
     = Inr (case map_of (technicalSignals analysis) token of
              Some v \<Rightarrow> Signal v
            | None \<Rightarrow> if token \<in> set Object_prototype_names
                      then ObjectPrototypeMember token else Null)"
  by (simp add: analyzePriceTrend_def get_property_def or_null_def Let_def split: option.splits)

text \<open>
  Claim C9. With the sample analysis cached and fresh, \<open>analyzePriceTrend\<close> resolves to the
  signal for the key SOL and to \<open>null\<close> for DOGE, which is no key. For \<open>toString\<close> and
  \<open>constructor\<close>, which are no keys of \<open>technicalSignals\<close> either, the lookup finds the
  members that the object inherits from \<open>Object.prototype\<close>, and the call resolves to them
  and not to \<open>null\<close>.
\<close>

theorem analyzePriceTrend_inherited_member:
  "map_of (technicalSignals sample_analysis) ''toString'' = None
   \<and> returned (analyzePriceTrend sample_cache 2000 (Inl (ProviderError ''unused'')) 2000 ''toString'')
       = Inr (ObjectPrototypeMember ''toString'')
   \<and> map_of (technicalSignals sample_analysis) ''constructor'' = None
   \<and> returned (analyzePriceTrend sample_cache 2000 (Inl (ProviderError ''unused'')) 2000 ''constructor'')
       = Inr (ObjectPrototypeMember ''constructor'')
   \<and> returned (analyzePriceTrend sample_cache 2000 (Inl (ProviderError ''unused'')) 2000 ''DOGE'')
       = Inr Null
   \<and> returned (analyzePriceTrend sample_cache 2000 (Inl (ProviderError ''unused'')) 2000 ''SOL'')
       = Inr (Signal \<lparr>sentiment = ''strongly bullish'',
                 indicators = \<lparr>macd = ''bullish'', rsi = Finite 86, movingAverages = ''sideways''\<rparr>\<rparr>)"
proof -
  have fresh: "returned (getMarketAnalysis sample_cache 2000 (Inl (ProviderError ''unused'')) 2000)
      = Inr (Some sample_analysis)"
    by (simp add: getMarketAnalysis_def shouldRefreshCache_def CACHE_DURATION_def sample_cache_def)
  show ?thesis
    by (simp add: analyzePriceTrend_lookup [OF fresh] Object_prototype_names_def)
       (simp add: sample_analysis_def)
qed

section \<open>Properties of the suggestions and of the expertise level\<close>



lemma str_includes_sublist: "str_includes s t \<longleftrightarrow> sublist t s"
  by (induction s) (simp_all add: sublist_Cons_right)

lemma toLower_char_idem: "toLower_char (toLower_char c) = toLower_char c"
  by (simp add: toLower_char_def)

lemma toLowerCase_idem: "toLowerCase (toLowerCase s) = toLowerCase s"
  by (simp add: toLowerCase_def toLower_char_idem)

text \<open>
  Claim C7. The expertise level of a message history is Advanced if some message of role
  user contains, once lowercased, one of the advanced terms as a substring; otherwise
  Intermediate if some user message contains an intermediate term in the same way;
  otherwise Beginner. Every user message of the history is considered, and the case of
  its letters plays no part.
\<close>

theorem determineUserExpertise_levels:
  "determineUserExpertise messages =
     (if \<exists>m\<in>set messages. role m = ''user''
            \<and> (\<exists>w\<in>set advancedTerms. sublist w (toLowerCase (content m)))
      then Advanced
      else if \<exists>m\<in>set messages. role m = ''user''
            \<and> (\<exists>w\<in>set intermediateTerms. sublist w (toLowerCase (content m)))
      then Intermediate
      else Beginner)
   \<and> determineUserExpertise (map (\<lambda>m. m\<lparr>content := toLowerCase (content m)\<rparr>) messages)
       = determineUserExpertise messages"
proof -
  have ex: "\<And>terms. list_ex (\<lambda>msg. list_ex (\<lambda>t. str_includes msg t) terms)
              (map (\<lambda>m. toLowerCase (content m)) (filter (\<lambda>m. role m = ''user'') messages))
          \<longleftrightarrow> (\<exists>m\<in>set messages. role m = ''user''
                \<and> (\<exists>w\<in>set terms. sublist w (toLowerCase (content m))))"
    by (auto simp add: list_ex_iff str_includes_sublist)
  have first: "determineUserExpertise messages =
     (if \<exists>m\<in>set messages. role m = ''user''
            \<and> (\<exists>w\<in>set advancedTerms. sublist w (toLowerCase (content m)))
      then Advanced
      else if \<exists>m\<in>set messages. role m = ''user''
            \<and> (\<exists>w\<in>set intermediateTerms. sublist w (toLowerCase (content m)))
      then Intermediate
      else Beginner)"
    unfolding determineUserExpertise_def Let_def ex by simp
  have same: "map (\<lambda>m. toLowerCase (content m))
        (filter (\<lambda>m. role m = ''user'') (map (\<lambda>m. m\<lparr>content := toLowerCase (content m)\<rparr>) messages))
      = map (\<lambda>m. toLowerCase (content m)) (filter (\<lambda>m. role m = ''user'') messages)"
    by (induction messages) (simp_all add: toLowerCase_idem)
  have second: "determineUserExpertise (map (\<lambda>m. m\<lparr>content := toLowerCase (content m)\<rparr>) messages)
       = determineUserExpertise messages"
    unfolding determineUserExpertise_def Let_def same by simp
  from first second show ?thesis by simp
qed

theorem determineUserExpertise_levels_witness:
  "determineUserExpertise
     [\<lparr>role = ''user'', content = ''Try staking''\<rparr>,
      \<lparr>role = ''assistant'', content = ''Ok.''\<rparr>,
      \<lparr>role = ''user'', content = ''Is MEV bad?''\<rparr>] = Advanced
   \<and> determineUserExpertise
     [\<lparr>role = ''user'', content = ''Try Staking''\<rparr>,
      \<lparr>role = ''assistant'', content = ''Or an AMM.''\<rparr>] = Intermediate
   \<and> determineUserExpertise
     [\<lparr>role = ''user'', content = ''hello''\<rparr>,
      \<lparr>role = ''assistant'', content = ''Ask me about MEV.''\<rparr>] = Beginner"
proof -
  have lower:
    "toLowerCase ''Try staking'' = ''try staking''"
    "toLowerCase ''Ok.'' = ''ok.''"
    "toLowerCase ''Is MEV bad?'' = ''is mev bad?''"
    "toLowerCase ''Try Staking'' = ''try staking''"
    "toLowerCase ''Or an AMM.'' = ''or an amm.''"
    "toLowerCase ''hello'' = ''hello''"
    "toLowerCase ''Ask me about MEV.'' = ''ask me about mev.''"
    by (simp_all add: toLowerCase_def toLower_char_def)
  show ?thesis
    using determineUserExpertise_levels
        [of "[\<lparr>role = ''user'', content = ''Try staking''\<rparr>,
              \<lparr>role = ''assistant'', content = ''Ok.''\<rparr>,
              \<lparr>role = ''user'', content = ''Is MEV bad?''\<rparr>]"]
      determineUserExpertise_levels
        [of "[\<lparr>role = ''user'', content = ''Try Staking''\<rparr>,
              \<lparr>role = ''assistant'', content = ''Or an AMM.''\<rparr>]"]
      determineUserExpertise_levels
        [of "[\<lparr>role = ''user'', content = ''hello''\<rparr>,
              \<lparr>role = ''assistant'', content = ''Ask me about MEV.''\<rparr>]"]
    by (simp add: lower advancedTerms_def intermediateTerms_def sublist_code)
qed

section \<open>Properties of the orchestration entry point\<close>

text \<open>
  Claim C10. \<open>generateEnhancedResponse\<close> returns a reply whatever its two steps do, and
  never throws. If the query service throws, or it returns and recording the interaction
  throws, the reply is the fixed one: the message "I encountered an unexpected issue. ..."
  with the suggestions "Check market trends", "View wallet balance", "Learn about DeFi" and
  no intent. If both steps return, the reply carries the message, the intent and the
  suggestions of the query service.
\<close>

theorem generateEnhancedResponse_total:
  "(\<exists>reply. generateEnhancedResponse processQuery recordInteraction prompt ctx = Inr reply)
   \<and> ((\<exists>e. processQuery prompt ctx = Inl e)
        \<or> (\<exists>g e. processQuery prompt ctx = Inr g
               \<and> recordInteraction prompt (message g) (walletConnected ctx) = Inl e)
      \<longrightarrow> generateEnhancedResponse processQuery recordInteraction prompt ctx = Inr fallbackReply)
   \<and> (processQuery prompt ctx = Inr g
        \<and> recordInteraction prompt (message g) (walletConnected ctx) = Inr ()
      \<longrightarrow> generateEnhancedResponse processQuery recordInteraction prompt ctx
            = Inr \<lparr>replyMessage = message g, replyIntent = intent g,
                   replySuggestions = suggestions g\<rparr>)
   \<and> replyMessage fallbackReply
       = ''I encountered an unexpected issue. Let me know what specific information you're looking for, and I'll help you out.''

   \<and> replySuggestions fallbackReply
       = Some [''Check market trends'', ''View wallet balance'', ''Learn about DeFi'']
   \<and> replyIntent fallbackReply = None"
proof (intro conjI impI)
  show "\<exists>reply. generateEnhancedResponse processQuery recordInteraction prompt ctx = Inr reply"
    by (simp add: generateEnhancedResponse_def Let_def split: sum.splits)
next
  assume "(\<exists>e. processQuery prompt ctx = Inl e)
        \<or> (\<exists>g e. processQuery prompt ctx = Inr g
               \<and> recordInteraction prompt (message g) (walletConnected ctx) = Inl e)"
  then show "generateEnhancedResponse processQuery recordInteraction prompt ctx = Inr fallbackReply"
    by (auto simp add: generateEnhancedResponse_def Let_def)
next
  assume "processQuery prompt ctx = Inr g
        \<and> recordInteraction prompt (message g) (walletConnected ctx) = Inr ()"
  then show "generateEnhancedResponse processQuery recordInteraction prompt ctx
            = Inr \<lparr>replyMessage = message g, replyIntent = intent g,
                   replySuggestions = suggestions g\<rparr>"
    by (simp add: generateEnhancedResponse_def Let_def)
qed (simp_all add: fallbackReply_def)

theorem generateEnhancedResponse_total_witness:
  "generateEnhancedResponse (\<lambda>q c. Inl (ProviderError ''model unreachable''))
       (\<lambda>p m w. Inr ()) ''hello''
       \<lparr>walletConnected = False, walletAddress = None, balance = 0,
        expertiseLevel = Some Beginner, startTime = None\<rparr>
     = Inr fallbackReply
   \<and> generateEnhancedResponse
       (\<lambda>q c. Inr \<lparr>message = ''Hi.'', intent = None, suggestions = Some [''Explain blockchain basics'']\<rparr>)
       (\<lambda>p m w. Inl TypeError) ''hello''
       \<lparr>walletConnected = False, walletAddress = None, balance = 0,
        expertiseLevel = Some Beginner, startTime = None\<rparr>
     = Inr fallbackReply
   \<and> generateEnhancedResponse
       (\<lambda>q c. Inr \<lparr>message = ''Hi.'', intent = None, suggestions = Some [''Explain blockchain basics'']\<rparr>)
       (\<lambda>p m w. Inr ()) ''hello''
       \<lparr>walletConnected = False, walletAddress = None, balance = 0,
        expertiseLevel = Some Beginner, startTime = None\<rparr>
     = Inr \<lparr>replyMessage = ''Hi.'', replyIntent = None,
            replySuggestions = Some [''Explain blockchain basics'']\<rparr>"
  using generateEnhancedResponse_total
      [of "\<lambda>q c. Inl (ProviderError ''model unreachable'')" "\<lambda>p m w. Inr ()" "''hello''"
        "\<lparr>walletConnected = False, walletAddress = None, balance = 0,
          expertiseLevel = Some Beginner, startTime = None\<rparr>"
        "\<lparr>message = ''Hi.'', intent = None, suggestions = Some [''Explain blockchain basics'']\<rparr>"]
    generateEnhancedResponse_total
      [of "\<lambda>q c. Inr \<lparr>message = ''Hi.'', intent = None, suggestions = Some [''Explain blockchain basics'']\<rparr>"
        "\<lambda>p m w. Inl TypeError" "''hello''"
        "\<lparr>walletConnected = False, walletAddress = None, balance = 0,
          expertiseLevel = Some Beginner, startTime = None\<rparr>"
        "\<lparr>message = ''Hi.'', intent = None, suggestions = Some [''Explain blockchain basics'']\<rparr>"]
    generateEnhancedResponse_total
      [of "\<lambda>q c. Inr \<lparr>message = ''Hi.'', intent = None, suggestions = Some [''Explain blockchain basics'']\<rparr>"
        "\<lambda>p m w. Inr ()" "''hello''"
        "\<lparr>walletConnected = False, walletAddress = None, balance = 0,
          expertiseLevel = Some Beginner, startTime = None\<rparr>"
        "\<lparr>message = ''Hi.'', intent = None, suggestions = Some [''Explain blockchain basics'']\<rparr>"]
  by simp

end
